theory Spec2Isabelle
  imports Main "HOL-Library.Word"
begin

chapter \<open>Tutor Connect: the attendance calendar of \<^verbatim>\<open>src/App.tsx\<close>\<close>

text \<open>
  A shallow embedding of the logic of \<^verbatim>\<open>src/App.tsx\<close>: the calendar grid, month
  navigation, the attendance fetch and edit commit, tutor login and the add-student
  operation. React state is a record that each handler takes and returns; the Supabase
  client is a record of response functions; every handler also returns the list of
  requests it issued. The attendance fetch is suspended while its query is under way
  and resumes on the state as it is then: it takes, as a parameter, what other handlers
  do to the state in between.
\<close>

section \<open>JavaScript values\<close>

subsection \<open>Strings\<close>

text \<open>
  A JavaScript string is a sequence of 16-bit code units. Literals of the source are
  ASCII and are written with \<open>lit\<close>.
\<close>

type_synonym code_unit = "16 word"
type_synonym jsstring = "code_unit list"

definition lit :: "string \<Rightarrow> jsstring" where
  "lit s = map (\<lambda>c. of_nat (of_char c)) s"

text \<open>
  \<^verbatim>\<open>String.prototype.trim\<close> strips WhiteSpace and LineTerminator code points from
  both ends: TAB, LF, VT, FF, CR, SP, NBSP, U+1680, U+2000..U+200A, U+2028, U+2029,
  U+202F, U+205F, U+3000 and U+FEFF.
\<close>

definition is_whitespace :: "code_unit \<Rightarrow> bool" where
  "is_whitespace c =
     (c \<in> set [0x0009, 0x000A, 0x000B, 0x000C, 0x000D, 0x0020, 0x00A0, 0x1680,
                0x2000, 0x2001, 0x2002, 0x2003, 0x2004, 0x2005, 0x2006, 0x2007,
                0x2008, 0x2009, 0x200A, 0x2028, 0x2029, 0x202F, 0x205F, 0x3000,
                0xFEFF])"

definition trim :: "jsstring \<Rightarrow> jsstring" where
  "trim s = rev (dropWhile is_whitespace (rev (dropWhile is_whitespace s)))"

text \<open>
  \<^verbatim>\<open>s.padStart(n, fill)\<close>: \<open>s\<close> itself when it is long enough or the filler is empty,
  otherwise the filler repeated and cut to the missing length, then \<open>s\<close>.
\<close>

definition padStart :: "jsstring \<Rightarrow> nat \<Rightarrow> jsstring \<Rightarrow> jsstring" where
  "padStart s n fill =
     (if n \<le> length s \<or> fill = [] then s
      else take (n - length s) (concat (replicate (n - length s) fill)) @ s)"

subsection \<open>Numbers\<close>

text \<open>
  The numbers of this program are integers (years, months, days, loop counters) or NaN
  (what the getters of an invalid Date return). \<open>None\<close> is NaN. Every comparison with
  NaN is false and arithmetic on NaN gives NaN.
\<close>

type_synonym num = "int option"

definition num_add :: "num \<Rightarrow> num \<Rightarrow> num" where
  "num_add a b = (case a of None \<Rightarrow> None | Some x \<Rightarrow> (case b of None \<Rightarrow> None | Some y \<Rightarrow> Some (x + y)))"

definition num_lt :: "num \<Rightarrow> num \<Rightarrow> bool" where
  "num_lt a b = (case a of None \<Rightarrow> False | Some x \<Rightarrow> (case b of None \<Rightarrow> False | Some y \<Rightarrow> x < y))"

definition num_le :: "num \<Rightarrow> num \<Rightarrow> bool" where
  "num_le a b = (case a of None \<Rightarrow> False | Some x \<Rightarrow> (case b of None \<Rightarrow> False | Some y \<Rightarrow> x \<le> y))"

definition digit :: "nat \<Rightarrow> code_unit" where
  "digit n = of_nat (48 + n)"

fun dec :: "nat \<Rightarrow> jsstring" where
  "dec n = (if n < 10 then [digit n] else dec (n div 10) @ [digit (n mod 10)])"

declare dec.simps [simp del]

text \<open>
  \<^verbatim>\<open>String(x)\<close> and \<^verbatim>\<open>${x}\<close> for such a number: the decimal digits, a leading minus
  sign for a negative integer, \<^verbatim>\<open>NaN\<close> for NaN (integers below \<open>10\<^sup>2\<^sup>1\<close> print without
  an exponent, and no Date field reaches that).
\<close>

definition ToString :: "num \<Rightarrow> jsstring" where
  "ToString x =
     (case x of
        None \<Rightarrow> lit ''NaN''
      | Some i \<Rightarrow> (if i < 0 then lit ''-'' @ dec (nat (- i)) else dec (nat i)))"

subsection \<open>Dates\<close>

text \<open>
  The Date object after ECMA-262, section 21.4.1. A Date holds a time value: an integer
  number of milliseconds since 1970-01-01, or NaN (an invalid Date). The program reads
  and writes Dates in local time only; the local time zone is taken to be UTC with no
  daylight saving, so \<^verbatim>\<open>LocalTime\<close> and \<^verbatim>\<open>UTC\<close> are the identity.
\<close>

type_synonym jsdate = num

definition msPerDay :: int where
  "msPerDay = 86400000"

definition Day :: "int \<Rightarrow> int" where
  "Day t = t div msPerDay"

definition TimeWithinDay :: "int \<Rightarrow> int" where
  "TimeWithinDay t = t mod msPerDay"

definition DaysInYear :: "int \<Rightarrow> int" where
  "DaysInYear y =
     (if y mod 4 \<noteq> 0 then 365
      else if y mod 100 \<noteq> 0 then 366
      else if y mod 400 \<noteq> 0 then 365
      else 366)"

definition DayFromYear :: "int \<Rightarrow> int" where
  "DayFromYear y =
     365 * (y - 1970) + (y - 1969) div 4 - (y - 1901) div 100 + (y - 1601) div 400"

definition TimeFromYear :: "int \<Rightarrow> int" where
  "TimeFromYear y = msPerDay * DayFromYear y"

text \<open>
  ECMA-262 defines \<^verbatim>\<open>YearFromTime(t)\<close> as the largest \<open>y\<close> with
  \<open>TimeFromYear y \<le> t\<close>. The executable form estimates the year from the mean year
  length and corrects by at most one; \<open>YearFromTime_largest\<close> below proves that it
  is that largest \<open>y\<close>.
\<close>

definition YearFromDay :: "int \<Rightarrow> int" where
  "YearFromDay d =
     (let y0 = 1970 + (400 * d) div 146097
      in if d < DayFromYear y0 then y0 - 1
         else if DayFromYear (y0 + 1) \<le> d then y0 + 1
         else y0)"

definition YearFromTime :: "int \<Rightarrow> int" where
  "YearFromTime t = YearFromDay (Day t)"

definition InLeapYear_of_year :: "int \<Rightarrow> int" where
  "InLeapYear_of_year y = (if DaysInYear y = 365 then 0 else 1)"

definition InLeapYear :: "int \<Rightarrow> int" where
  "InLeapYear t = InLeapYear_of_year (YearFromTime t)"

definition DayWithinYear :: "int \<Rightarrow> int" where
  "DayWithinYear t = Day t - DayFromYear (YearFromTime t)"

definition MonthFromTime :: "int \<Rightarrow> int" where
  "MonthFromTime t =
     (let d = DayWithinYear t; l = InLeapYear t
      in if d < 31 then 0
         else if d < 59 + l then 1
         else if d < 90 + l then 2
         else if d < 120 + l then 3
         else if d < 151 + l then 4
         else if d < 181 + l then 5
         else if d < 212 + l then 6
         else if d < 243 + l then 7
         else if d < 273 + l then 8
         else if d < 304 + l then 9
         else if d < 334 + l then 10
         else 11)"

definition DateFromTime :: "int \<Rightarrow> int" where
  "DateFromTime t =
     (let d = DayWithinYear t; l = InLeapYear t; m = MonthFromTime t
      in if m = 0 then d + 1
         else if m = 1 then d - 30
         else if m = 2 then d - 58 - l
         else if m = 3 then d - 89 - l
         else if m = 4 then d - 119 - l
         else if m = 5 then d - 150 - l
         else if m = 6 then d - 180 - l
         else if m = 7 then d - 211 - l
         else if m = 8 then d - 242 - l
         else if m = 9 then d - 272 - l
         else if m = 10 then d - 303 - l
         else d - 333 - l)"

definition WeekDay :: "int \<Rightarrow> int" where
  "WeekDay t = (Day t + 4) mod 7"

text \<open>
  \<^verbatim>\<open>MakeDay(year, month, date)\<close>: the month is carried into the year, \<open>t\<close> is the
  first day of that month, and the result is \<open>Day t + date - 1\<close>, so a date of 0 is the
  last day of the month before. \<open>DaysBeforeMonth\<close> is the day within the year on which
  month \<open>mn\<close> starts; \<open>MakeDay_first\<close> below proves that the day found has the year,
  month and date that ECMA-262 asks of \<open>t\<close>.
\<close>

definition DaysBeforeMonth :: "int \<Rightarrow> int \<Rightarrow> int" where
  "DaysBeforeMonth l mn =
     (if mn = 0 then 0
      else if mn = 1 then 31
      else if mn = 2 then 59 + l
      else if mn = 3 then 90 + l
      else if mn = 4 then 120 + l
      else if mn = 5 then 151 + l
      else if mn = 6 then 181 + l
      else if mn = 7 then 212 + l
      else if mn = 8 then 243 + l
      else if mn = 9 then 273 + l
      else if mn = 10 then 304 + l
      else 334 + l)"

definition MakeDay :: "int \<Rightarrow> int \<Rightarrow> int \<Rightarrow> int" where
  "MakeDay year month dt =
     (let ym = year + month div 12; mn = month mod 12
      in DayFromYear ym + DaysBeforeMonth (InLeapYear_of_year ym) mn + dt - 1)"

definition MakeDate :: "int \<Rightarrow> int \<Rightarrow> int" where
  "MakeDate day time = day * msPerDay + time"

text \<open>\<^verbatim>\<open>TimeClip\<close>: a time value beyond 8.64e15 ms from the epoch is NaN.\<close>

definition maxTime :: int where
  "maxTime = 8640000000000000"

definition TimeClip :: "int \<Rightarrow> jsdate" where
  "TimeClip t = (if \<bar>t\<bar> > maxTime then None else Some t)"

text \<open>
  \<^verbatim>\<open>new Date(year, month, date)\<close>: a year from 0 to 99 means 1900 + year; hours,
  minutes, seconds and milliseconds are 0.
\<close>

definition new_Date_ymd :: "num \<Rightarrow> num \<Rightarrow> num \<Rightarrow> jsdate" where
  "new_Date_ymd year month dt =
     (case year of None \<Rightarrow> None | Some y \<Rightarrow>
      (case month of None \<Rightarrow> None | Some m \<Rightarrow>
       (case dt of None \<Rightarrow> None | Some d \<Rightarrow>
         (let yr = (if 0 \<le> y \<and> y \<le> 99 then 1900 + y else y)
          in TimeClip (MakeDate (MakeDay yr m d) 0)))))"

text \<open>\<^verbatim>\<open>new Date(prev)\<close> for a Date \<open>prev\<close>: a copy of its time value.\<close>

definition new_Date_copy :: "jsdate \<Rightarrow> jsdate" where
  "new_Date_copy prev = (case prev of None \<Rightarrow> None | Some t \<Rightarrow> TimeClip t)"

definition getFullYear :: "jsdate \<Rightarrow> num" where
  "getFullYear d = map_option YearFromTime d"

definition getMonth :: "jsdate \<Rightarrow> num" where
  "getMonth d = map_option MonthFromTime d"

definition getDate :: "jsdate \<Rightarrow> num" where
  "getDate d = map_option DateFromTime d"

definition getDay :: "jsdate \<Rightarrow> num" where
  "getDay d = map_option WeekDay d"

text \<open>\<^verbatim>\<open>d.setMonth(month, date)\<close>: the year and the time within the day are kept.\<close>

definition setMonth :: "jsdate \<Rightarrow> num \<Rightarrow> num \<Rightarrow> jsdate" where
  "setMonth d month dt =
     (case d of None \<Rightarrow> None | Some t \<Rightarrow>
      (case month of None \<Rightarrow> None | Some m \<Rightarrow>
       (case dt of None \<Rightarrow> None | Some dd \<Rightarrow>
          TimeClip (MakeDate (MakeDay (YearFromTime t) m dd) (TimeWithinDay t)))))"




subsection \<open>The calendar the claims speak of\<close>

text \<open>
  The proleptic Gregorian calendar in the terms of the claims: the number of days of
  month \<open>m\<close> (0 is January) of year \<open>y\<close>, the weekday index (Sunday is 0) of the first
  day of that month, and the month that follows a month.
\<close>

definition days_in_month :: "int \<Rightarrow> int \<Rightarrow> int" where
  "days_in_month y m =
     (if m = 1 then 28 + InLeapYear_of_year y
      else if m = 3 \<or> m = 5 \<or> m = 8 \<or> m = 10 then 30
      else 31)"

definition weekday_of_first :: "int \<Rightarrow> int \<Rightarrow> int" where
  "weekday_of_first y m = (DayFromYear y + DaysBeforeMonth (InLeapYear_of_year y) m + 4) mod 7"

definition next_month :: "int \<times> int \<Rightarrow> int \<times> int" where
  "next_month ym = (if snd ym = 11 then (fst ym + 1, 0) else (fst ym, snd ym + 1))"

text \<open>A day number is representable when the Date at its midnight is valid.\<close>

definition representable_day :: "int \<Rightarrow> bool" where
  "representable_day d = (\<bar>MakeDate d 0\<bar> \<le> maxTime)"

text \<open>
  The canonical date string of a day, \<^verbatim>\<open>YYYY-MM-DD\<close>: the year in decimal digits (after a
  minus sign when it is negative), the number of the month counted from 1 and the day of
  the month, each in two digits, joined by hyphens. This is written from the calendar
  and not from the program: a digit is read off the string \<^verbatim>\<open>0123456789\<close>, and the
  digit of a number at a position is its quotient by that power of ten, modulo ten.
\<close>

definition digit_char :: "nat \<Rightarrow> code_unit" where
  "digit_char k = lit ''0123456789'' ! k"

fun digit_count :: "nat \<Rightarrow> nat" where
  "digit_count n = (if n < 10 then 1 else Suc (digit_count (n div 10)))"

declare digit_count.simps [simp del]

definition decimal_numeral :: "nat \<Rightarrow> jsstring" where
  "decimal_numeral n =
     map (\<lambda>i. digit_char (n div 10 ^ (digit_count n - 1 - i) mod 10)) [0..<digit_count n]"

definition two_digits :: "int \<Rightarrow> jsstring" where
  "two_digits n = [digit_char (nat (n div 10 mod 10)), digit_char (nat (n mod 10))]"

definition year_numeral :: "int \<Rightarrow> jsstring" where
  "year_numeral y = (if y < 0 then lit ''-'' @ decimal_numeral (nat (- y)) else decimal_numeral (nat y))"

definition canonical_date :: "int \<Rightarrow> int \<Rightarrow> int \<Rightarrow> jsstring" where
  "canonical_date y m d = year_numeral y @ lit ''-'' @ two_digits (m + 1) @ lit ''-'' @ two_digits d"

text \<open>
  A calendar date is a year, a month (0 is January) and a day of the month; \<open>date_le\<close>
  is the order of the calendar. A date lies in a month when it is in the inclusive
  range from the first to the last calendar day of that month.
\<close>

definition date_le :: "int \<times> int \<times> int \<Rightarrow> int \<times> int \<times> int \<Rightarrow> bool" where
  "date_le a b =
     (fst a < fst b
      \<or> (fst a = fst b
          \<and> (fst (snd a) < fst (snd b)
              \<or> (fst (snd a) = fst (snd b) \<and> snd (snd a) \<le> snd (snd b)))))"

definition in_month :: "int \<Rightarrow> int \<Rightarrow> int \<times> int \<times> int \<Rightarrow> bool" where
  "in_month y m c = (date_le (y, m, 1) c \<and> date_le c (y, m, days_in_month y m))"

text \<open>The canonical date strings of the days of a month, from the first to the last.\<close>

definition month_dates :: "int \<Rightarrow> int \<Rightarrow> jsstring list" where
  "month_dates y m = map (canonical_date y m) [1..days_in_month y m]"

text \<open>
  Reading a date string back: the last two characters are the day, the two before the
  hyphen before them are the month, and what is before the hyphen before those is the
  year. Only a string of that form that names a day of the calendar is read.
\<close>

definition digit_value :: "code_unit \<Rightarrow> nat option" where
  "digit_value c = (if 48 \<le> unat c \<and> unat c \<le> 57 then Some (unat c - 48) else None)"

fun read_digits :: "nat \<Rightarrow> jsstring \<Rightarrow> nat option" where
  "read_digits acc [] = Some acc"
| "read_digits acc (c # cs) =
     (case digit_value c of None \<Rightarrow> None | Some v \<Rightarrow> read_digits (10 * acc + v) cs)"

definition read_number :: "jsstring \<Rightarrow> nat option" where
  "read_number s = (if s = [] then None else read_digits 0 s)"

definition read_year :: "jsstring \<Rightarrow> int option" where
  "read_year s =
     (case s of
        [] \<Rightarrow> None
      | c # cs \<Rightarrow>
          if c = 0x2D then map_option (\<lambda>n. - int n) (read_number cs)
          else map_option int (read_number s))"

definition read_date :: "jsstring \<Rightarrow> (int \<times> int \<times> int) option" where
  "read_date s =
     (let n = length s
      in if n < 7 then None
         else if s ! (n - 3) \<noteq> 0x2D \<or> s ! (n - 6) \<noteq> 0x2D then None
         else
           (case read_year (take (n - 6) s) of
              None \<Rightarrow> None
            | Some y \<Rightarrow>
                (case read_number (take 2 (drop (n - 5) s)) of
                   None \<Rightarrow> None
                 | Some mo \<Rightarrow>
                     (case read_number (drop (n - 2) s) of
                        None \<Rightarrow> None
                      | Some dd \<Rightarrow>
                          if 1 \<le> mo \<and> mo \<le> 12 \<and> 1 \<le> dd
                               \<and> int dd \<le> days_in_month y (int mo - 1)
                          then Some (y, int mo - 1, int dd)
                          else None))))"

section \<open>Data model\<close>

datatype AttendanceStatus = present | absent | holiday | extra

record Student =
  id' :: jsstring
  name :: jsstring
  created_at :: jsstring

record AttendanceRecord =
  status :: AttendanceStatus
  comment :: jsstring

text \<open>A row of the attendance table: \<^verbatim>\<open>CalendarDayData extends AttendanceRecord\<close>.\<close>

record CalendarDayData = AttendanceRecord +
  student_id :: jsstring
  date :: jsstring

text \<open>
  \<^verbatim>\<open>AttendanceData\<close>: an object used as a dictionary from date strings to records.
  Reading a missing key gives \<^verbatim>\<open>undefined\<close>, here \<open>None\<close>.
\<close>

type_synonym AttendanceData = "jsstring \<rightharpoonup> AttendanceRecord"

definition TUTOR_SECRET_CODE :: jsstring where
  "TUTOR_SECRET_CODE = lit ''Tutor2042!''"



section \<open>The Supabase client\<close>

text \<open>
  The client is outside the repository. A request resolves to \<^verbatim>\<open>{data, error}\<close>:
  \<open>Inr\<close> the rows, or \<open>Inl\<close> the error (for a write, \<open>Some\<close> the error or \<open>None\<close>).
  The client the handlers hold is a record of what the gateway answers to each request
  the program can build; \<^verbatim>\<open>supabase\<close> itself is \<open>None\<close> when the two environment
  values are missing. Every handler returns, beside the new state, the requests it sent.
\<close>

datatype error = GatewayError jsstring

datatype request =
    SelectStudents
  | InsertStudent jsstring
  | SelectAttendance jsstring jsstring jsstring
  | UpsertAttendance CalendarDayData

record SupabaseClient =
  select_students :: "error + Student list"
  insert_student :: "jsstring \<Rightarrow> error option"
  select_attendance :: "jsstring \<Rightarrow> jsstring \<Rightarrow> jsstring \<Rightarrow> error + CalendarDayData list"
  upsert_attendance :: "CalendarDayData \<Rightarrow> error option"

text \<open>
  Modelled from the spec: the attendance table of the Database Gateway and its
  select-filtered-by-range, \<^verbatim>\<open>.eq('student_id', s).gte('date', lo).lte('date', hi)\<close>.
  The column \<^verbatim>\<open>date\<close> holds calendar dates: year, month (0 is January) and day. The
  gateway reads the two bounds as dates and answers with an error when one of them is
  not a date; otherwise it answers with the rows of the student whose date is between
  the bounds in the order of the calendar, each date printed as its canonical string.
\<close>

record AttendanceRow =
  row_student_id :: jsstring
  row_date :: "int \<times> int \<times> int"
  row_status :: AttendanceStatus
  row_comment :: jsstring

definition row_json :: "AttendanceRow \<Rightarrow> CalendarDayData" where
  "row_json r =
     \<lparr>status = row_status r, comment = row_comment r, student_id = row_student_id r,
      date = canonical_date (fst (row_date r)) (fst (snd (row_date r))) (snd (snd (row_date r)))\<rparr>"

definition select_filtered_by_range ::
  "AttendanceRow list \<Rightarrow> jsstring \<Rightarrow> jsstring \<Rightarrow> jsstring \<Rightarrow> error + CalendarDayData list" where
  "select_filtered_by_range table s lo hi =
     (case read_date lo of
        None \<Rightarrow> Inl (GatewayError (lit ''invalid input syntax for type date''))
      | Some a \<Rightarrow>
          (case read_date hi of
             None \<Rightarrow> Inl (GatewayError (lit ''invalid input syntax for type date''))
           | Some b \<Rightarrow>
               Inr (map row_json
                     (filter (\<lambda>r. row_student_id r = s \<and> date_le a (row_date r) \<and> date_le (row_date r) b)
                        table))))"

section \<open>Login\<close>

datatype role = RoleTutor | RoleParent

datatype user = Tutor | Parent Student

record LoginScreen =
  tutorCode :: jsstring
  selectedStudent :: jsstring
  error_message :: jsstring

text \<open>\<^verbatim>\<open>App.handleLogin\<close>: the session is the \<^verbatim>\<open>user\<close> state, \<open>None\<close> for null.\<close>

definition handleLogin :: "role \<Rightarrow> Student option \<Rightarrow> user option \<Rightarrow> user option" where
  "handleLogin r loggedInUser u =
     (if r = RoleTutor then Some Tutor
      else (case loggedInUser of Some st \<Rightarrow> Some (Parent st) | None \<Rightarrow> u))"

definition handleTutorLogin :: "LoginScreen \<times> user option \<Rightarrow> LoginScreen \<times> user option" where
  "handleTutorLogin st =
     (if tutorCode (fst st) = TUTOR_SECRET_CODE
      then (fst st, handleLogin RoleTutor None (snd st))
      else ((fst st)\<lparr>error_message := lit ''Invalid secret code.''\<rparr>, snd st))"

section \<open>Calendar\<close>

text \<open>The date key \<^verbatim>\<open>`${year}-${String(month + 1).padStart(2, '0')}-${String(day).padStart(2, '0')}`\<close>.\<close>

definition dateStr :: "num \<Rightarrow> num \<Rightarrow> num \<Rightarrow> jsstring" where
  "dateStr year month dy =
     ToString year @ lit ''-''
     @ padStart (ToString (num_add month (Some 1))) 2 (lit ''0'') @ lit ''-''
     @ padStart (ToString dy) 2 (lit ''0'')"

datatype cell =
    Blank jsstring
  | DayCell jsstring int "AttendanceRecord option"

text \<open>The two loops of \<^verbatim>\<open>calendarGrid\<close>; \<open>days\<close> is the array they push to.\<close>

function blank_loop :: "int \<Rightarrow> num \<Rightarrow> cell list \<Rightarrow> cell list" where
  "blank_loop i firstDayOfMonth days =
     (if num_lt (Some i) firstDayOfMonth
      then blank_loop (i + 1) firstDayOfMonth (days @ [Blank (lit ''blank-'' @ ToString (Some i))])
      else days)"
  by pat_completeness auto
termination
  by (relation "measure (\<lambda>(i, n, days). case n of None \<Rightarrow> 0 | Some k \<Rightarrow> nat (k - i))")
    (auto simp: num_lt_def split: option.splits)

declare blank_loop.simps [simp del]

function day_loop :: "num \<Rightarrow> num \<Rightarrow> AttendanceData \<Rightarrow> int \<Rightarrow> num \<Rightarrow> cell list \<Rightarrow> cell list" where
  "day_loop year month attendance dy daysInMonth days =
     (if num_le (Some dy) daysInMonth
      then (let dateStr' = dateStr year month (Some dy);
                record' = attendance dateStr'
            in day_loop year month attendance (dy + 1) daysInMonth
                 (days @ [DayCell dateStr' dy record']))
      else days)"
  by pat_completeness auto
termination
  by (relation "measure (\<lambda>(year, month, attendance, dy, n, days).
        case n of None \<Rightarrow> 0 | Some k \<Rightarrow> nat (k + 1 - dy))")
    (auto simp: num_le_def split: option.splits)

declare day_loop.simps [simp del]

definition calendarGrid :: "num \<Rightarrow> num \<Rightarrow> AttendanceData \<Rightarrow> cell list" where
  "calendarGrid year month attendance =
     (let firstDayOfMonth = getDay (new_Date_ymd year month (Some 1));
          daysInMonth = getDate (new_Date_ymd year (num_add month (Some 1)) (Some 0));
          days = [];
          days = blank_loop 0 firstDayOfMonth days
      in day_loop year month attendance 1 daysInMonth days)"







section \<open>Dashboard\<close>

record Dashboard =
  currentDate :: jsdate
  selectedStudentId :: jsstring
  attendance :: AttendanceData
  isLoadingAttendance :: bool
  isModalOpen :: bool
  isStudentManagerOpen :: bool
  selectedDay :: "int option"

text \<open>The bounds of the month query, as \<^verbatim>\<open>fetchAttendanceForMonth\<close> computes them.\<close>

definition firstDay :: "jsdate \<Rightarrow> jsstring" where
  "firstDay d =
     ToString (getFullYear d) @ lit ''-''
     @ padStart (ToString (num_add (getMonth d) (Some 1))) 2 (lit ''0'') @ lit ''-01''"

definition lastDayOfMonth :: "jsdate \<Rightarrow> jsstring" where
  "lastDayOfMonth d =
     (let year = getFullYear d; month = getMonth d;
          lastDay = getDate (new_Date_ymd year (num_add month (Some 1)) (Some 0))
      in ToString year @ lit ''-''
         @ padStart (ToString (num_add month (Some 1))) 2 (lit ''0'') @ lit ''-''
         @ padStart (ToString lastDay) 2 (lit ''0''))"

text \<open>The loop that fills \<^verbatim>\<open>newAttendanceData\<close>: a later row overwrites an earlier one.\<close>

fun build_attendance :: "AttendanceData \<Rightarrow> CalendarDayData list \<Rightarrow> AttendanceData" where
  "build_attendance newAttendanceData [] = newAttendanceData"
| "build_attendance newAttendanceData (r # rs) =
     build_attendance (newAttendanceData(date r \<mapsto> \<lparr>status = status r, comment = comment r\<rparr>)) rs"

text \<open>
  \<^verbatim>\<open>fetchAttendanceForMonth\<close> is asynchronous. It sets the loading flag, computes the
  bounds and sends the query; at the \<^verbatim>\<open>await\<close> it is suspended until the response
  arrives, and then the \<^verbatim>\<open>try\<close>, \<^verbatim>\<open>catch\<close> and \<^verbatim>\<open>finally\<close> blocks go on: they
  set the mapping from the rows, or keep it on an error, and clear the loading flag.
  Nothing cancels a fetch and nothing compares its arguments with the state when it
  resumes, so its writes land on the state as it is then. Other handlers can run while
  the fetch is suspended (the loading overlay covers the grid only, not the month
  buttons or the student select): \<open>between\<close> is what they do to the state, the
  identity when none runs.
\<close>

definition fetchAttendanceForMonth ::
  "SupabaseClient option \<Rightarrow> jsstring \<Rightarrow> jsdate \<Rightarrow> (Dashboard \<Rightarrow> Dashboard) \<Rightarrow> Dashboard
     \<Rightarrow> Dashboard \<times> request list" where
  "fetchAttendanceForMonth supabase studentId d between s =
     (case supabase of
        None \<Rightarrow> (s, [])
      | Some g \<Rightarrow>
          if studentId = [] then (s, [])
          else
            (let s1 = s\<lparr>isLoadingAttendance := True\<rparr>;
                 lo = firstDay d;
                 hi = lastDayOfMonth d;
                 response = select_attendance g studentId lo hi;
                 s2 = between s1
             in case response of
                  Inr data \<Rightarrow>
                    (s2\<lparr>attendance := build_attendance Map.empty data, isLoadingAttendance := False\<rparr>,
                     [SelectAttendance studentId lo hi])
                | Inl e \<Rightarrow>
                    (s2\<lparr>isLoadingAttendance := False\<rparr>, [SelectAttendance studentId lo hi])))"


definition changeMonth :: "int \<Rightarrow> Dashboard \<Rightarrow> Dashboard" where
  "changeMonth delta s =
     s\<lparr>currentDate :=
         (let newDate = new_Date_copy (currentDate s)
          in setMonth newDate (num_add (getMonth newDate) (Some delta)) (Some 1))\<rparr>"


definition handleDayClick :: "int \<Rightarrow> Dashboard \<Rightarrow> Dashboard" where
  "handleDayClick dy s = s\<lparr>selectedDay := Some dy, isModalOpen := True\<rparr>"

text \<open>
  \<^verbatim>\<open>handleSaveAttendance\<close>. \<^verbatim>\<open>selectedDay\<close> is a number or null (\<open>None\<close>); null and
  0 are falsy, so the guard \<^verbatim>\<open>selectedDay && supabase\<close> passes for a day other than 0
  and a present client.
\<close>

definition save_dateStr :: "Dashboard \<Rightarrow> int \<Rightarrow> jsstring" where
  "save_dateStr s dy =
     dateStr (getFullYear (currentDate s)) (getMonth (currentDate s)) (Some dy)"

definition save_row :: "AttendanceRecord \<Rightarrow> Dashboard \<Rightarrow> int \<Rightarrow> CalendarDayData" where
  "save_row rc s dy =
     \<lparr>status = status rc, comment = comment rc,
      student_id = selectedStudentId s, date = save_dateStr s dy\<rparr>"

definition handleSaveAttendance ::
  "SupabaseClient option \<Rightarrow> AttendanceRecord \<Rightarrow> Dashboard \<Rightarrow> Dashboard \<times> request list" where
  "handleSaveAttendance supabase rc s =
     (case selectedDay s of
        None \<Rightarrow> (s, [])
      | Some dy \<Rightarrow>
          if dy = 0 then (s, [])
          else
            (case supabase of
               None \<Rightarrow> (s, [])
             | Some g \<Rightarrow>
                 (let dateStr' = save_dateStr s dy;
                      s1 = (case upsert_attendance g (save_row rc s dy) of
                              Some e \<Rightarrow> s
                            | None \<Rightarrow> s\<lparr>attendance := (attendance s)(dateStr' \<mapsto> rc)\<rparr>)
                  in (s1\<lparr>isModalOpen := False, selectedDay := None\<rparr>,
                      [UpsertAttendance (save_row rc s dy)]))))"

section \<open>Roster\<close>

record Roster =
  students :: "Student list"
  isLoaded :: bool

definition fetchStudents :: "SupabaseClient option \<Rightarrow> Roster \<Rightarrow> Roster \<times> request list" where
  "fetchStudents supabase r =
     (case supabase of
        None \<Rightarrow> (r, [])
      | Some g \<Rightarrow>
          (case select_students g of
             Inr data \<Rightarrow> (r\<lparr>students := data, isLoaded := True\<rparr>, [SelectStudents])
           | Inl e \<Rightarrow> (r\<lparr>isLoaded := True\<rparr>, [SelectStudents])))"

text \<open>
  \<^verbatim>\<open>StudentManager.addStudent\<close>: the state is the text of the input, \<open>newName\<close>, and
  the roster that \<^verbatim>\<open>onStudentAdded\<close> (that is \<^verbatim>\<open>fetchStudents\<close>) refreshes.
\<close>

definition addStudent ::
  "SupabaseClient option \<Rightarrow> jsstring \<times> Roster \<Rightarrow> (jsstring \<times> Roster) \<times> request list" where
  "addStudent supabase st =
     (let newName = fst st; r = snd st
      in if trim newName \<noteq> [] then
           (case supabase of
              None \<Rightarrow> (st, [])
            | Some g \<Rightarrow>
                (case insert_student g (trim newName) of
                   Some e \<Rightarrow> (st, [InsertStudent (trim newName)])
                 | None \<Rightarrow>
                     (let fr = fetchStudents supabase r
                      in (([], fst fr), InsertStudent (trim newName) # snd fr))))
         else (st, []))"

section \<open>The claims' terms and the examples\<close>

text \<open>
  The grid as the claim describes it: as many blanks as the weekday index of the first
  of the month, then one cell for each day of the month with its day number and the
  record stored under the canonical date string of that day. (A blank carries its
  position as a key.)
\<close>

definition month_grid :: "int \<Rightarrow> int \<Rightarrow> AttendanceData \<Rightarrow> cell list" where
  "month_grid y m att =
     map (\<lambda>i. Blank (lit ''blank-'' @ decimal_numeral (nat i))) [0..weekday_of_first y m - 1]
     @ map (\<lambda>d. DayCell (canonical_date y m d) d (att (canonical_date y m d)))
         [1..days_in_month y m]"

text \<open>The month a dashboard shows: the year and month of its current date.\<close>

definition viewed_month :: "Dashboard \<Rightarrow> (int \<times> int) option" where
  "viewed_month s =
     (case getFullYear (currentDate s) of
        None \<Rightarrow> None
      | Some y \<Rightarrow> (case getMonth (currentDate s) of None \<Rightarrow> None | Some m \<Rightarrow> Some (y, m)))"

text \<open>
  The example of the spec: March 2024 for one student, with the record of March 5.
  The current date is 2024-03-15, 1710460800000 ms after the epoch.
\<close>

definition march_2024 :: jsdate where
  "march_2024 = Some 1710460800000"

definition example_attendance :: AttendanceData where
  "example_attendance = [lit ''2024-03-05'' \<mapsto> \<lparr>status = absent, comment = lit ''sick''\<rparr>]"

definition example_dashboard :: Dashboard where
  "example_dashboard =
     \<lparr>currentDate = march_2024, selectedStudentId = lit ''asha'',
      attendance = example_attendance, isLoadingAttendance = False,
      isModalOpen = True, isStudentManagerOpen = False, selectedDay = Some 6\<rparr>"

text \<open>The last valid Date, 8.64e15 ms after the epoch: 13 September of the year 275760.\<close>

definition last_date_dashboard :: Dashboard where
  "last_date_dashboard = example_dashboard\<lparr>currentDate := Some 8640000000000000\<rparr>"

text \<open>The current date 2024-01-31, 08:30 in the morning.\<close>

definition jan_31_dashboard :: Dashboard where
  "jan_31_dashboard = example_dashboard\<lparr>currentDate := Some 1706689800000\<rparr>"



text \<open>
  Two gateways for the examples. The first holds an attendance table and answers the
  month query as the select-filtered-by-range of that table; its writes succeed. The
  second fails every request.
\<close>

definition example_table :: "AttendanceRow list" where
  "example_table =
     [\<lparr>row_student_id = lit ''asha'', row_date = (2024, 2, 5), row_status = absent, row_comment = lit ''sick''\<rparr>,
      \<lparr>row_student_id = lit ''ravi'', row_date = (2024, 2, 7), row_status = holiday, row_comment = []\<rparr>,
      \<lparr>row_student_id = lit ''asha'', row_date = (2024, 3, 2), row_status = present, row_comment = []\<rparr>]"

definition example_roster :: "Student list" where
  "example_roster =
     [\<lparr>id' = lit ''asha'', name = lit ''Asha'', created_at = lit ''2024-01-01''\<rparr>,
      \<lparr>id' = lit ''ravi'', name = lit ''Ravi'', created_at = lit ''2024-01-02''\<rparr>]"

definition example_gateway :: SupabaseClient where
  "example_gateway =
     \<lparr>select_students = Inr example_roster,
      insert_student = (\<lambda>n. None),
      select_attendance = select_filtered_by_range example_table,
      upsert_attendance = (\<lambda>r. None)\<rparr>"

definition failing_gateway :: SupabaseClient where
  "failing_gateway =
     \<lparr>select_students = Inl (GatewayError (lit ''offline'')),
      insert_student = (\<lambda>n. Some (GatewayError (lit ''offline''))),
      select_attendance = (\<lambda>s lo hi. Inl (GatewayError (lit ''offline''))),
      upsert_attendance = (\<lambda>r. Some (GatewayError (lit ''offline'')))\<rparr>"





text \<open>The current date 2024-04-15, 1713139200000 ms after the epoch.\<close>

definition april_2024 :: jsdate where
  "april_2024 = Some 1713139200000"

section \<open>Facts about the Date algorithms\<close>

lemma div_bounds:
  fixes a b :: int
  assumes "0 < b"
  shows "b * (a div b) \<le> a" and "a < b * (a div b) + b"
proof -
  have e: "a = b * (a div b) + a mod b" by simp
  have "0 \<le> a mod b" "a mod b < b" using assms by simp_all
  then show "b * (a div b) \<le> a" and "a < b * (a div b) + b" using e by linarith+
qed

lemma DayFromYear_lower: "146097 * (y - 1970) - 506 \<le> 400 * DayFromYear y"
proof -
  define A where "A = (y - 1969) div 4"
  define B where "B = (y - 1901) div 100"
  define C where "C = (y - 1601) div 400"
  have "y - 1969 < 4 * A + 4" "100 * B \<le> y - 1901" "y - 1601 < 400 * C + 400"
    unfolding A_def B_def C_def by (rule div_bounds, simp)+
  then show ?thesis
    unfolding DayFromYear_def A_def [symmetric] B_def [symmetric] C_def [symmetric]
    by (simp add: right_diff_distrib distrib_left)
qed

lemma DayFromYear_upper: "400 * DayFromYear y \<le> 146097 * (y - 1970) + 589"
proof -
  define A where "A = (y - 1969) div 4"
  define B where "B = (y - 1901) div 100"
  define C where "C = (y - 1601) div 400"
  have "4 * A \<le> y - 1969" "y - 1901 < 100 * B + 100" "400 * C \<le> y - 1601"
    unfolding A_def B_def C_def by (rule div_bounds, simp)+
  then show ?thesis
    unfolding DayFromYear_def A_def [symmetric] B_def [symmetric] C_def [symmetric]
    by (simp add: right_diff_distrib distrib_left)
qed

lemma YearFromDay_bounds:
  "DayFromYear (YearFromDay d) \<le> d \<and> d < DayFromYear (YearFromDay d + 1)"
proof -
  define q where "q = (400 * d) div 146097"
  define y0 where "y0 = 1970 + q"
  have a: "146097 * q \<le> 400 * d" "400 * d < 146097 * q + 146097"
    unfolding q_def by (rule div_bounds, simp)+
  have l: "DayFromYear (y0 - 1) \<le> d"
    using DayFromYear_upper [of "y0 - 1"] a unfolding y0_def
    by (simp add: right_diff_distrib distrib_left)
  have u: "d < DayFromYear (y0 + 1 + 1)"
    using DayFromYear_lower [of "y0 + 1 + 1"] a unfolding y0_def
    by (simp add: right_diff_distrib distrib_left)
  have Y: "YearFromDay d = (if d < DayFromYear y0 then y0 - 1
         else if DayFromYear (y0 + 1) \<le> d then y0 + 1 else y0)"
    unfolding YearFromDay_def y0_def q_def Let_def ..
  show ?thesis
    unfolding Y using l u by auto
qed

lemma div_succ:
  fixes x n :: int
  assumes "0 < n"
  shows "(x + 1) div n = x div n + (if (x + 1) mod n = 0 then 1 else 0)"
proof -
  define q where "q = x div n"
  define r where "r = x mod n"
  have x: "x = n * q + r" and r: "0 \<le> r" "r < n"
    using assms by (simp_all add: q_def r_def)
  show ?thesis
  proof (cases "r + 1 = n")
    case True
    then have e: "x + 1 = (q + 1) * n" using x by (simp add: algebra_simps)
    have "(x + 1) div n = q + 1" and "(x + 1) mod n = 0"
      unfolding e using assms by simp_all
    then show ?thesis by (simp add: q_def)
  next
    case False
    then have s: "0 \<le> r + 1" "r + 1 < n" using r by linarith+
    have e: "x + 1 = (r + 1) + q * n" using x by (simp add: algebra_simps)
    have "(x + 1) div n = q" and "(x + 1) mod n = r + 1"
      unfolding e using s by simp_all
    then show ?thesis using r by (simp add: q_def)
  qed
qed

lemma mod_shift:
  fixes y :: int
  shows "(y - 1968) mod 4 = y mod 4" "(y - 1900) mod 100 = y mod 100"
    "(y - 1600) mod 400 = y mod 400"
proof -
  have "y - 1968 = y + (- 492) * 4" "y - 1900 = y + (- 19) * 100" "y - 1600 = y + (- 4) * 400"
    by simp_all
  then show "(y - 1968) mod 4 = y mod 4" "(y - 1900) mod 100 = y mod 100"
    "(y - 1600) mod 400 = y mod 400"
    by (simp_all only: mod_mult_self1)
qed

lemma mod_400_100_4:
  fixes y :: int
  shows "y mod 400 = 0 \<Longrightarrow> y mod 100 = 0" and "y mod 100 = 0 \<Longrightarrow> y mod 4 = 0"
proof -
  have "y mod 400 mod 100 = y mod 100" by (rule mod_mod_cancel) simp
  then show "y mod 400 = 0 \<Longrightarrow> y mod 100 = 0" by simp
  have "y mod 100 mod 4 = y mod 4" by (rule mod_mod_cancel) simp
  then show "y mod 100 = 0 \<Longrightarrow> y mod 4 = 0" by simp
qed

lemma DayFromYear_step: "DayFromYear (y + 1) = DayFromYear y + DaysInYear y"
proof -
  have a: "(y + 1 - 1969) div 4 = (y - 1969) div 4 + (if y mod 4 = 0 then 1 else 0)"
    using div_succ [of 4 "y - 1969"] mod_shift(1) [of y] by (simp add: algebra_simps)
  have b: "(y + 1 - 1901) div 100 = (y - 1901) div 100 + (if y mod 100 = 0 then 1 else 0)"
    using div_succ [of 100 "y - 1901"] mod_shift(2) [of y] by (simp add: algebra_simps)
  have c: "(y + 1 - 1601) div 400 = (y - 1601) div 400 + (if y mod 400 = 0 then 1 else 0)"
    using div_succ [of 400 "y - 1601"] mod_shift(3) [of y] by (simp add: algebra_simps)
  show ?thesis
    unfolding DayFromYear_def DaysInYear_def a b c
    using mod_400_100_4 [of y] by auto
qed

lemma DaysInYear_pos: "0 < DaysInYear y"
  by (simp add: DaysInYear_def)

lemma DayFromYear_mono_nat: "DayFromYear y \<le> DayFromYear (y + int n)"
proof (induction n)
  case 0
  then show ?case by simp
next
  case (Suc n)
  have "DayFromYear (y + int (Suc n)) = DayFromYear (y + int n) + DaysInYear (y + int n)"
    using DayFromYear_step [of "y + int n"] by (simp add: algebra_simps)
  then show ?case using Suc DaysInYear_pos [of "y + int n"] by linarith
qed

lemma DayFromYear_mono: "a \<le> b \<Longrightarrow> DayFromYear a \<le> DayFromYear b"
  using DayFromYear_mono_nat [of a "nat (b - a)"] by simp

text \<open>The year is determined by the interval of day numbers it spans.\<close>

lemma YearFromDay_unique:
  assumes "DayFromYear y \<le> d" and "d < DayFromYear (y + 1)"
  shows "YearFromDay d = y"
proof -
  let ?Y = "YearFromDay d"
  have b: "DayFromYear ?Y \<le> d" "d < DayFromYear (?Y + 1)"
    using YearFromDay_bounds [of d] by simp_all
  have "\<not> ?Y < y"
  proof
    assume "?Y < y"
    then have "DayFromYear (?Y + 1) \<le> DayFromYear y" by (intro DayFromYear_mono) simp
    then show False using b assms by linarith
  qed
  moreover have "\<not> y < ?Y"
  proof
    assume "y < ?Y"
    then have "DayFromYear (y + 1) \<le> DayFromYear ?Y" by (intro DayFromYear_mono) simp
    then show False using b assms by linarith
  qed
  ultimately show ?thesis by simp
qed

text \<open>\<open>YearFromTime\<close> is the year ECMA-262 defines: the largest whose start is not after \<open>t\<close>.\<close>

lemma Day_le_iff: "msPerDay * d \<le> t \<longleftrightarrow> d \<le> Day t"
proof
  assume "msPerDay * d \<le> t"
  then have "(msPerDay * d) div msPerDay \<le> t div msPerDay"
    by (rule zdiv_mono1) (simp add: msPerDay_def)
  then show "d \<le> Day t" by (simp add: Day_def msPerDay_def)
next
  assume "d \<le> Day t"
  then have "msPerDay * d \<le> msPerDay * (t div msPerDay)"
    unfolding Day_def by (intro mult_left_mono) (simp_all add: msPerDay_def)
  also have "\<dots> \<le> t" by (rule div_bounds) (simp add: msPerDay_def)
  finally show "msPerDay * d \<le> t" .
qed

lemma YearFromTime_largest:
  "TimeFromYear (YearFromTime t) \<le> t \<and> (\<forall>y. TimeFromYear y \<le> t \<longrightarrow> y \<le> YearFromTime t)"
proof -
  have b: "DayFromYear (YearFromTime t) \<le> Day t" "Day t < DayFromYear (YearFromTime t + 1)"
    using YearFromDay_bounds [of "Day t"] by (simp_all add: YearFromTime_def)
  have "y \<le> YearFromTime t" if "DayFromYear y \<le> Day t" for y
  proof (rule ccontr)
    assume "\<not> y \<le> YearFromTime t"
    then have "DayFromYear (YearFromTime t + 1) \<le> DayFromYear y"
      by (intro DayFromYear_mono) simp
    then show False using b that by linarith
  qed
  then show ?thesis using b(1) by (simp add: TimeFromYear_def Day_le_iff)
qed


lemma month_cases:
  fixes m :: int
  assumes "0 \<le> m" "m < 12"
  obtains "m = 0" | "m = 1" | "m = 2" | "m = 3" | "m = 4" | "m = 5"
    | "m = 6" | "m = 7" | "m = 8" | "m = 9" | "m = 10" | "m = 11"
proof -
  have "m = 0 \<or> m = 1 \<or> m = 2 \<or> m = 3 \<or> m = 4 \<or> m = 5
    \<or> m = 6 \<or> m = 7 \<or> m = 8 \<or> m = 9 \<or> m = 10 \<or> m = 11"
    using assms by presburger
  then show thesis using that by blast
qed

lemma leap_01: "InLeapYear_of_year y = 0 \<or> InLeapYear_of_year y = 1"
  by (simp add: InLeapYear_of_year_def)

lemma DaysInYear_leap: "DaysInYear y = 365 + InLeapYear_of_year y"
  by (simp add: InLeapYear_of_year_def DaysInYear_def)

lemma Day_MakeDate: "0 \<le> tm \<Longrightarrow> tm < msPerDay \<Longrightarrow> Day (MakeDate d tm) = d"
  by (simp add: Day_def MakeDate_def msPerDay_def)

lemma TimeWithinDay_MakeDate:
  "0 \<le> tm \<Longrightarrow> tm < msPerDay \<Longrightarrow> TimeWithinDay (MakeDate d tm) = tm"
  by (simp add: TimeWithinDay_def MakeDate_def msPerDay_def)

lemma TimeWithinDay_range: "0 \<le> TimeWithinDay t" "TimeWithinDay t < msPerDay"
  by (simp_all add: TimeWithinDay_def msPerDay_def)

text \<open>The civil date read back from a day number of year \<open>y\<close>.\<close>

lemma civil_of_day:
  assumes m: "0 \<le> m" "m < 12" and d: "1 \<le> d" "d \<le> days_in_month y m"
    and t: "Day t = DayFromYear y + DaysBeforeMonth (InLeapYear_of_year y) m + d - 1"
  shows "YearFromTime t = y" and "MonthFromTime t = m" and "DateFromTime t = d"
proof -
  let ?l = "InLeapYear_of_year y"
  have l: "?l = 0 \<or> ?l = 1" by (rule leap_01)
  have w: "0 \<le> DaysBeforeMonth ?l m + d - 1" "DaysBeforeMonth ?l m + d - 1 < 365 + ?l"
    using m d l by (cases m rule: month_cases; simp add: DaysBeforeMonth_def days_in_month_def; linarith)+
  show y: "YearFromTime t = y"
    unfolding YearFromTime_def
    by (rule YearFromDay_unique) (use w t DayFromYear_step [of y] DaysInYear_leap [of y] in linarith)+
  have dwy: "DayWithinYear t = DaysBeforeMonth ?l m + d - 1"
    by (simp add: DayWithinYear_def y t)
  have il: "InLeapYear t = ?l" by (simp add: InLeapYear_def y)
  show mm: "MonthFromTime t = m"
    unfolding MonthFromTime_def dwy il Let_def
    using m d l by (cases m rule: month_cases; simp add: DaysBeforeMonth_def days_in_month_def; linarith)
  show "DateFromTime t = d"
    unfolding DateFromTime_def dwy il mm Let_def
    using m by (cases m rule: month_cases; simp add: DaysBeforeMonth_def)
qed

lemma days_in_month_pos: "1 \<le> days_in_month y m"
  using leap_01 [of y] by (auto simp: days_in_month_def)

lemma MakeDay_in_year:
  "0 \<le> m \<Longrightarrow> m < 12 \<Longrightarrow>
     MakeDay y m d = DayFromYear y + DaysBeforeMonth (InLeapYear_of_year y) m + d - 1"
  by (simp add: MakeDay_def)

text \<open>
  The day \<open>MakeDay\<close> finds for the first of a month has that year, month and date 1,
  as ECMA-262 asks; the month may be any integer.
\<close>

lemma MakeDay_first:
  assumes "Day t = MakeDay y m 1"
  shows "YearFromTime t = y + m div 12" and "MonthFromTime t = m mod 12" and "DateFromTime t = 1"
proof -
  have r: "0 \<le> m mod 12" "m mod 12 < 12" by simp_all
  have o: "(1::int) \<le> 1" by simp
  have d: "Day t = DayFromYear (y + m div 12)
      + DaysBeforeMonth (InLeapYear_of_year (y + m div 12)) (m mod 12) + 1 - 1"
    using assms by (simp add: MakeDay_def Let_def)
  note c = civil_of_day [OF r o days_in_month_pos d]
  show "YearFromTime t = y + m div 12" by (rule c(1))
  show "MonthFromTime t = m mod 12" by (rule c(2))
  show "DateFromTime t = 1" by (rule c(3))
qed

text \<open>Date 0 of the next month is the last day of this month.\<close>

lemma MakeDay_next_zero:
  assumes "0 \<le> m" "m < 12"
  shows "MakeDay y (m + 1) 0 = MakeDay y m (days_in_month y m)"
proof (cases "m = 11")
  case True
  then show ?thesis
    using DayFromYear_step [of y] DaysInYear_leap [of y]
    by (simp add: MakeDay_def DaysBeforeMonth_def days_in_month_def)
next
  case False
  then have "0 \<le> m + 1" "m + 1 < 12" using assms by linarith+
  then have "MakeDay y (m + 1) 0
      = DayFromYear y + DaysBeforeMonth (InLeapYear_of_year y) (m + 1) + 0 - 1"
    by (rule MakeDay_in_year)
  moreover have "DaysBeforeMonth (InLeapYear_of_year y) (m + 1)
      = DaysBeforeMonth (InLeapYear_of_year y) m + days_in_month y m"
    using assms False
    by (cases m rule: month_cases; simp add: DaysBeforeMonth_def days_in_month_def)
  ultimately show ?thesis using assms by (simp add: MakeDay_in_year)
qed

lemma MonthFromTime_range: "0 \<le> MonthFromTime t" "MonthFromTime t < 12"
  by (simp_all add: MonthFromTime_def Let_def)

section \<open>The loops of the calendar grid\<close>

lemma blank_loop_eq:
  "blank_loop i (Some n) days
     = days @ map (\<lambda>j. Blank (lit ''blank-'' @ ToString (Some j))) [i..n - 1]"
proof (induction "nat (n - i)" arbitrary: i days)
  case 0
  then have "\<not> i < n" by simp
  then show ?case
    by (subst blank_loop.simps) (simp add: num_lt_def)
next
  case (Suc k)
  then have lt: "i < n" and k: "k = nat (n - (i + 1))" by linarith+
  have u: "[i..n - 1] = i # [i + 1..n - 1]" using lt by (simp add: upto_rec1)
  show ?case
    by (subst blank_loop.simps) (simp add: num_lt_def lt Suc.hyps(1) [OF k] u)
qed

lemma blank_loop_NaN: "blank_loop i None days = days"
  by (subst blank_loop.simps) (simp add: num_lt_def)

lemma day_loop_eq:
  "day_loop year month att i (Some n) days
     = days @ map (\<lambda>d. DayCell (dateStr year month (Some d)) d (att (dateStr year month (Some d)))) [i..n]"
proof (induction "nat (n + 1 - i)" arbitrary: i days)
  case 0
  then have "\<not> i \<le> n" by simp
  then show ?case
    by (subst day_loop.simps) (simp add: num_le_def)
next
  case (Suc k)
  then have le: "i \<le> n" and k: "k = nat (n + 1 - (i + 1))" by linarith+
  have u: "[i..n] = i # [i + 1..n]" using le by (simp add: upto_rec1)
  show ?case
    by (subst day_loop.simps) (simp add: num_le_def le Suc.hyps(1) [OF k] u Let_def)
qed

lemma day_loop_NaN: "day_loop year month att i None days = days"
  by (subst day_loop.simps) (simp add: num_le_def)

section \<open>The years whose months are all representable\<close>

text \<open>
  The Date range ends in April of the year -271821 and in September of the year 275760.
  Every month of the years in between has representable first and last days, at any
  time of day.
\<close>

lemma DayFromYear_ends: "DayFromYear (- 271820) = - 99999744" "DayFromYear 275760 = 99999744"
  by (simp_all add: DayFromYear_def)

lemma DayFromYear_range:
  assumes "- 271820 \<le> y" "y \<le> 275759"
  shows "- 99999744 \<le> DayFromYear y" and "DayFromYear y + 365 \<le> 99999744"
proof -
  show "- 99999744 \<le> DayFromYear y"
    using DayFromYear_mono [OF assms(1)] by (simp add: DayFromYear_ends)
  have "y + 1 \<le> 275760" using assms(2) by simp
  then have "DayFromYear (y + 1) \<le> 99999744"
    using DayFromYear_mono [of "y + 1" 275760] by (simp add: DayFromYear_ends)
  then show "DayFromYear y + 365 \<le> 99999744"
    using DayFromYear_step [of y] DaysInYear_leap [of y] leap_01 [of y] by linarith
qed

lemma DaysBeforeMonth_range:
  assumes "0 \<le> m" "m < 12"
  shows "0 \<le> DaysBeforeMonth (InLeapYear_of_year y) m"
    and "DaysBeforeMonth (InLeapYear_of_year y) m + days_in_month y m \<le> 365 + InLeapYear_of_year y"
  using assms leap_01 [of y]
  by (cases m rule: month_cases; simp add: DaysBeforeMonth_def days_in_month_def; linarith)+

lemma representable_time:
  assumes "- 99999744 \<le> d" "d \<le> 99999745" "0 \<le> tm" "tm < msPerDay"
  shows "\<bar>MakeDate d tm\<bar> \<le> maxTime"
  using assms by (simp add: MakeDate_def msPerDay_def maxTime_def abs_le_iff)

lemma ordinary_year_month_days:
  assumes "- 271820 \<le> y" "y \<le> 275759" "0 \<le> m" "m < 12"
  shows "- 99999744 \<le> MakeDay y m 1" "MakeDay y m 1 \<le> 99999744"
    and "- 99999744 \<le> MakeDay y (m + 1) 0" "MakeDay y (m + 1) 0 \<le> 99999744"
    and "- 99999744 \<le> MakeDay y (m + 1) 1" "MakeDay y (m + 1) 1 \<le> 99999745"
proof -
  note r = DayFromYear_range [OF assms(1,2)]
  note b = DaysBeforeMonth_range [OF assms(3,4), of y]
  have p: "1 \<le> days_in_month y m" by (rule days_in_month_pos)
  have l: "InLeapYear_of_year y = 0 \<or> InLeapYear_of_year y = 1" by (rule leap_01)
  have a: "MakeDay y m 1 = DayFromYear y + DaysBeforeMonth (InLeapYear_of_year y) m + 1 - 1"
    by (rule MakeDay_in_year [OF assms(3,4)])
  have c: "MakeDay y (m + 1) 0
      = DayFromYear y + DaysBeforeMonth (InLeapYear_of_year y) m + days_in_month y m - 1"
    unfolding MakeDay_next_zero [OF assms(3,4)] by (rule MakeDay_in_year [OF assms(3,4)])
  have e: "MakeDay y (m + 1) 1 = MakeDay y (m + 1) 0 + 1" by (simp add: MakeDay_def Let_def)
  show "- 99999744 \<le> MakeDay y m 1" "MakeDay y m 1 \<le> 99999744"
    using r b p l unfolding a by linarith+
  show "- 99999744 \<le> MakeDay y (m + 1) 0" "MakeDay y (m + 1) 0 \<le> 99999744"
    using r b p l unfolding c by linarith+
  show "- 99999744 \<le> MakeDay y (m + 1) 1" "MakeDay y (m + 1) 1 \<le> 99999745"
    using r b p l unfolding e c by linarith+
qed

lemma ordinary_year_representable:
  assumes "- 271820 \<le> y" "y \<le> 275759" "0 \<le> m" "m < 12"
  shows "representable_day (MakeDay y m 1)" and "representable_day (MakeDay y (m + 1) 0)"
  using ordinary_year_month_days [OF assms]
  by (simp_all add: representable_day_def representable_time msPerDay_def)

lemma ordinary_year_navigable:
  assumes "- 271820 \<le> YearFromTime t" "YearFromTime t \<le> 275759"
  shows "\<bar>MakeDate (MakeDay (YearFromTime t) (MonthFromTime t + 1) 1) (TimeWithinDay t)\<bar> \<le> maxTime"
    and "\<bar>MakeDate (MakeDay (YearFromTime t) (MonthFromTime t) 1) (TimeWithinDay t)\<bar> \<le> maxTime"
proof -
  note d = ordinary_year_month_days [OF assms MonthFromTime_range [of t]]
  show "\<bar>MakeDate (MakeDay (YearFromTime t) (MonthFromTime t + 1) 1) (TimeWithinDay t)\<bar> \<le> maxTime"
    by (rule representable_time [OF d(5,6) TimeWithinDay_range])
  have "MakeDay (YearFromTime t) (MonthFromTime t) 1 \<le> 99999745" using d(2) by simp
  then show "\<bar>MakeDate (MakeDay (YearFromTime t) (MonthFromTime t) 1) (TimeWithinDay t)\<bar> \<le> maxTime"
    by (rule representable_time [OF d(1) _ TimeWithinDay_range])
qed

section \<open>The canonical date string\<close>

text \<open>
  The digits the program prints with \<^verbatim>\<open>String\<close> are the digits of the decimal numeral,
  so the date key of the program is the canonical date string of the day.
\<close>

lemma digit_char_digit: "n < 10 \<Longrightarrow> digit_char n = digit n"
proof -
  assume "n < 10"
  then have "n \<in> set [0, 1, 2, 3, 4, 5, 6, 7, 8, 9]"
    by (simp only: list.set insert_iff empty_iff) presburger
  then show ?thesis
    by (simp only: list.set insert_iff empty_iff, elim disjE) (simp_all add: digit_char_def digit_def lit_def)
qed

lemma dec_decimal: "dec n = decimal_numeral n"
proof (induction n rule: dec.induct)
  case (1 n)
  show ?case
  proof (cases "n < 10")
    case True
    have c: "digit_count n = 1" using True by (subst digit_count.simps) simp
    show ?thesis
      using True by (subst dec.simps) (simp add: decimal_numeral_def c digit_char_digit)
  next
    case False
    let ?k = "digit_count (n div 10)"
    have c: "digit_count n = Suc ?k" using False by (subst digit_count.simps) simp
    have ih: "dec (n div 10) = decimal_numeral (n div 10)" using 1 False by simp
    have a: "map (\<lambda>i. digit_char (n div 10 ^ (?k - i) mod 10)) [0..<?k] = decimal_numeral (n div 10)"
      unfolding decimal_numeral_def
    proof (rule map_cong [OF refl])
      fix i
      assume "i \<in> set [0..<?k]"
      then have "?k - i = Suc (?k - 1 - i)" by simp
      then show "digit_char (n div 10 ^ (?k - i) mod 10)
          = digit_char (n div 10 div 10 ^ (?k - 1 - i) mod 10)"
        by (simp add: div_mult2_eq)
    qed
    have b: "digit_char (n mod 10) = digit (n mod 10)" by (simp add: digit_char_digit)
    have "decimal_numeral n = decimal_numeral (n div 10) @ [digit (n mod 10)]"
      by (simp add: decimal_numeral_def [of n] c a b)
    then show ?thesis
      using False by (subst dec.simps) (simp add: ih)
  qed
qed

lemma ToString_year: "ToString (Some y) = year_numeral y"
  by (simp add: ToString_def year_numeral_def dec_decimal)

lemma ToString_index: "0 \<le> i \<Longrightarrow> ToString (Some i) = decimal_numeral (nat i)"
  by (simp add: ToString_def dec_decimal)

lemma pad_two_digits:
  assumes "0 \<le> n" "n \<le> 99"
  shows "padStart (ToString (Some n)) 2 (lit ''0'') = two_digits n"
proof (cases "n < 10")
  case True
  then have l: "nat n < 10" "n div 10 mod 10 = 0" "n mod 10 = n" using assms by simp_all
  have z: "lit ''0'' = [digit_char 0]" by (simp add: digit_char_def lit_def)
  have "dec (nat n) = [digit_char (nat n)]"
    using l(1) by (subst dec.simps) (simp add: digit_char_digit)
  then show ?thesis
    using assms by (simp add: ToString_def padStart_def two_digits_def l z)
next
  case False
  then have l: "\<not> nat n < 10" "nat n div 10 < 10" using assms by simp_all
  have q: "nat (n div 10 mod 10) = nat n div 10" "nat (n mod 10) = nat n mod 10"
    "nat (n div 10) = nat n div 10"
    using assms False by (simp_all add: nat_div_distrib nat_mod_distrib)
  have "dec (nat n div 10) = [digit_char (nat n div 10)]"
    using l(2) by (subst dec.simps) (simp add: digit_char_digit)
  then have "dec (nat n) = [digit_char (nat n div 10), digit_char (nat n mod 10)]"
    using l(1) by (subst dec.simps) (simp add: digit_char_digit)
  then show ?thesis
    using assms by (simp add: ToString_def padStart_def two_digits_def q)
qed

lemma dateStr_canonical:
  assumes "0 \<le> m" "m < 12" "0 \<le> d" "d \<le> 99"
  shows "dateStr (Some y) (Some m) (Some d) = canonical_date y m d"
proof -
  have a: "padStart (ToString (Some (m + 1))) 2 (lit ''0'') = two_digits (m + 1)"
    using assms(1,2) by (intro pad_two_digits) simp_all
  have "dateStr (Some y) (Some m) (Some d)
      = ToString (Some y) @ lit ''-'' @ two_digits (m + 1) @ lit ''-'' @ two_digits d"
    unfolding dateStr_def num_add_def option.case a pad_two_digits [OF assms(3,4)] by (rule refl)
  then show ?thesis
    by (simp add: canonical_date_def ToString_year)
qed

lemma days_in_month_le_31: "days_in_month y m \<le> 31"
  using leap_01 [of y] by (auto simp: days_in_month_def)

subsection \<open>Reading the canonical date string back\<close>

lemma digit_value_digit_char: "k < 10 \<Longrightarrow> digit_value (digit_char k) = Some k"
proof -
  assume "k < 10"
  then have "k \<in> set [0, 1, 2, 3, 4, 5, 6, 7, 8, 9]"
    by (simp only: list.set insert_iff empty_iff) presburger
  then show ?thesis
    by (simp only: list.set insert_iff empty_iff, elim disjE) (simp_all add: digit_char_def digit_value_def lit_def)
qed

lemma read_digits_append:
  "read_digits acc (xs @ ys)
     = (case read_digits acc xs of None \<Rightarrow> None | Some a \<Rightarrow> read_digits a ys)"
  by (induction xs arbitrary: acc) (simp_all split: option.splits)

lemma read_digits_dec: "read_digits 0 (dec n) = Some n"
proof (induction n rule: dec.induct)
  case (1 n)
  show ?case
  proof (cases "n < 10")
    case True
    then show ?thesis
      by (subst dec.simps) (simp add: digit_char_digit [symmetric] digit_value_digit_char)
  next
    case False
    then have "read_digits 0 (dec (n div 10)) = Some (n div 10)" using 1 by simp
    then show ?thesis
      using False
      by (subst dec.simps)
        (simp add: read_digits_append digit_char_digit [symmetric] digit_value_digit_char)
  qed
qed

lemma dec_digits: "c \<in> set (dec n) \<Longrightarrow> \<exists>k<10. c = digit_char k"
proof (induction n rule: dec.induct)
  case (1 n)
  show ?case
  proof (cases "n < 10")
    case True
    then show ?thesis
      using 1(2) by (subst (asm) dec.simps) (auto simp: digit_char_digit)
  next
    case False
    have "c \<in> set (dec (n div 10)) \<or> c = digit (n mod 10)"
      using 1(2) False by (subst (asm) dec.simps) auto
    then show ?thesis
    proof
      assume "c \<in> set (dec (n div 10))"
      then show ?thesis using 1(1) False by simp
    next
      assume "c = digit (n mod 10)"
      then have "c = digit_char (n mod 10)" by (simp add: digit_char_digit)
      then show ?thesis by (intro exI [of _ "n mod 10"]) simp
    qed
  qed
qed

lemma dec_not_empty: "dec n \<noteq> []"
  by (subst dec.simps) simp

lemma hyphen_not_digit: "k < 10 \<Longrightarrow> digit_char k \<noteq> 0x2D"
proof
  assume "k < 10" and "digit_char k = 0x2D"
  then have "digit_value (0x2D :: code_unit) = Some k"
    using digit_value_digit_char [of k] by simp
  then show False by (simp add: digit_value_def)
qed

lemma read_number_decimal: "read_number (decimal_numeral n) = Some n"
  by (simp add: read_number_def dec_decimal [symmetric] dec_not_empty read_digits_dec)

lemma read_year_numeral: "read_year (year_numeral y) = Some y"
proof (cases "y < 0")
  case True
  have "lit ''-'' = [0x2D]" by (simp add: lit_def)
  then show ?thesis
    using True by (simp add: read_year_def year_numeral_def read_number_decimal)
next
  case False
  obtain c cs where s: "decimal_numeral (nat y) = c # cs"
    using dec_not_empty [of "nat y"] by (cases "decimal_numeral (nat y)") (auto simp: dec_decimal)
  then have "c \<in> set (dec (nat y))" by (simp add: dec_decimal)
  then obtain k where "k < 10" "c = digit_char k" using dec_digits by blast
  then have "c \<noteq> 0x2D" using hyphen_not_digit [of k] by simp
  moreover have "read_number (c # cs) = Some (nat y)"
    using read_number_decimal [of "nat y"] by (simp add: s)
  ultimately show ?thesis
    using False by (simp add: read_year_def year_numeral_def s)
qed

lemma read_number_two_digits:
  assumes "0 \<le> k" "k \<le> 99"
  shows "read_number (two_digits k) = Some (nat k)"
proof -
  have a: "nat (k div 10 mod 10) < 10" "nat (k mod 10) < 10" using assms by simp_all
  have "k div 10 mod 10 = k div 10" using assms by simp
  moreover have "int (10 * nat (k div 10) + nat (k mod 10)) = int (nat k)"
    using assms by (simp add: pos_imp_zdiv_nonneg_iff)
  then have "10 * nat (k div 10) + nat (k mod 10) = nat k" by (simp only: of_nat_eq_iff)
  ultimately have "10 * nat (k div 10 mod 10) + nat (k mod 10) = nat k" by simp
  then show ?thesis
    by (simp add: read_number_def two_digits_def digit_value_digit_char a)
qed

lemma read_date_canonical:
  assumes "0 \<le> m" "m < 12" "1 \<le> d" "d \<le> days_in_month y m"
  shows "read_date (canonical_date y m d) = Some (y, m, d)"
proof -
  obtain a b where mm: "two_digits (m + 1) = [a, b]" by (simp add: two_digits_def)
  obtain c e where dd: "two_digits d = [c, e]" by (simp add: two_digits_def)
  let ?Y = "year_numeral y"
  have s: "canonical_date y m d = ?Y @ [0x2D, a, b, 0x2D, c, e]"
    by (simp add: canonical_date_def mm dd lit_def)
  have d99: "0 \<le> d" "d \<le> 99" using assms(3,4) days_in_month_le_31 [of y m] by linarith+
  have rm: "read_number [a, b] = Some (nat (m + 1))"
    using read_number_two_digits [of "m + 1"] assms(1,2) by (simp add: mm)
  have rd: "read_number [c, e] = Some (nat d)"
    using read_number_two_digits [OF d99] by (simp add: dd)
  have n: "length (?Y @ [0x2D, a, b, 0x2D, c, e]) = length ?Y + 6" by simp
  have i: "(?Y @ [0x2D, a, b, 0x2D, c, e]) ! (length ?Y + 6 - 3) = 0x2D"
    "(?Y @ [0x2D, a, b, 0x2D, c, e]) ! (length ?Y + 6 - 6) = 0x2D"
    by (simp_all add: nth_append)
  have t: "take (length ?Y + 6 - 6) (?Y @ [0x2D, a, b, 0x2D, c, e]) = ?Y"
    "take 2 (drop (length ?Y + 6 - 5) (?Y @ [0x2D, a, b, 0x2D, c, e])) = [a, b]"
    "drop (length ?Y + 6 - 2) (?Y @ [0x2D, a, b, 0x2D, c, e]) = [c, e]"
    by simp_all
  have ne: "\<not> length ?Y + 6 < 7"
    using dec_not_empty by (auto simp: year_numeral_def dec_decimal [symmetric])
  have r: "int (nat (m + 1)) - 1 = m" "int (nat d) = d" using assms by simp_all
  have v1: "1 \<le> nat (m + 1)" "nat (m + 1) \<le> 12" "1 \<le> nat d" using assms by linarith+
  have v: "1 \<le> nat (m + 1) \<and> nat (m + 1) \<le> 12 \<and> 1 \<le> nat d
      \<and> int (nat d) \<le> days_in_month y (int (nat (m + 1)) - 1)"
    unfolding r using v1 assms(4) by simp
  show ?thesis
    unfolding s read_date_def Let_def n i t
    by (simp only: ne read_year_numeral rm rd v r assms(4) if_True if_False option.case simp_thms)
qed

text \<open>A string that ends in \<^verbatim>\<open>NaN\<close> is not read as a date.\<close>

lemma read_date_NaN: "read_date (xs @ lit ''NaN'') = None"
proof -
  let ?s = "xs @ lit ''NaN''"
  have l: "length ?s - 3 = length xs" by (simp add: lit_def)
  have "?s ! length xs = 0x4E" by (simp add: lit_def)
  then have "?s ! (length ?s - 3) \<noteq> 0x2D" unfolding l by simp
  then show ?thesis
    unfolding read_date_def Let_def by (simp only: simp_thms if_True if_False split: if_splits)
qed

text \<open>So the canonical date string tells the day.\<close>

lemma canonical_date_inject:
  assumes "0 \<le> m" "m < 12" "1 \<le> d" "d \<le> days_in_month y m"
    and "0 \<le> m'" "m' < 12" "1 \<le> d'" "d' \<le> days_in_month y' m'"
    and "canonical_date y m d = canonical_date y' m' d'"
  shows "y = y' \<and> m = m' \<and> d = d'"
proof -
  have "Some (y, m, d) = Some (y', m', d')"
    unfolding read_date_canonical [OF assms(1-4), symmetric]
      read_date_canonical [OF assms(5-8), symmetric] assms(9) by (rule refl)
  then show ?thesis by simp
qed

section \<open>The calendar grid\<close>

lemma TimeClip_representable: "representable_day d \<Longrightarrow> TimeClip (MakeDate d 0) = Some (MakeDate d 0)"
  by (simp add: TimeClip_def representable_day_def)

lemma WeekDay_MakeDate: "WeekDay (MakeDate d 0) = (d + 4) mod 7"
  by (simp add: WeekDay_def Day_MakeDate msPerDay_def)

text \<open>The date of day 0 of the next month is the length of the month.\<close>

lemma getDate_last_day:
  assumes m: "0 \<le> m" "m < 12"
    and yr: "yr = (if 0 \<le> y \<and> y \<le> 99 then 1900 + y else y)"
    and r2: "representable_day (MakeDay yr (m + 1) 0)"
  shows "getDate (new_Date_ymd (Some y) (num_add (Some m) (Some 1)) (Some 0))
      = Some (days_in_month yr m)"
proof -
  let ?t = "MakeDate (MakeDay yr (m + 1) 0) 0"
  have "Day ?t = MakeDay yr m (days_in_month yr m)"
    using m by (simp add: Day_MakeDate msPerDay_def MakeDay_next_zero)
  then have "Day ?t = DayFromYear yr + DaysBeforeMonth (InLeapYear_of_year yr) m + days_in_month yr m - 1"
    using m by (simp add: MakeDay_in_year)
  then have "DateFromTime ?t = days_in_month yr m"
    using m days_in_month_pos [of yr m] by (intro civil_of_day(3) [where y = yr and m = m]) simp_all
  then show ?thesis
    by (simp add: new_Date_ymd_def num_add_def yr [symmetric] TimeClip_representable [OF r2] getDate_def)
qed

text \<open>
  What the grid is for any year: the constructor reads a year from 0 to 99 as
  1900 + year, so the blanks and the number of day cells are those of that later year,
  while the date keys carry the year as given.
\<close>

lemma calendarGrid_computed:
  assumes m: "0 \<le> m" "m < 12"
    and yr: "yr = (if 0 \<le> y \<and> y \<le> 99 then 1900 + y else y)"
    and r1: "representable_day (MakeDay yr m 1)"
    and r2: "representable_day (MakeDay yr (m + 1) 0)"
  shows "calendarGrid (Some y) (Some m) att
     = map (\<lambda>i. Blank (lit ''blank-'' @ ToString (Some i))) [0..weekday_of_first yr m - 1]
       @ map (\<lambda>d. DayCell (dateStr (Some y) (Some m) (Some d)) d
                    (att (dateStr (Some y) (Some m) (Some d))))
           [1..days_in_month yr m]"
proof -
  have "new_Date_ymd (Some y) (Some m) (Some 1) = Some (MakeDate (MakeDay yr m 1) 0)"
    by (simp add: new_Date_ymd_def yr [symmetric] TimeClip_representable [OF r1])
  then have first: "getDay (new_Date_ymd (Some y) (Some m) (Some 1)) = Some (weekday_of_first yr m)"
    using m by (simp add: getDay_def WeekDay_MakeDate weekday_of_first_def MakeDay_in_year)
  let ?t = "MakeDate (MakeDay yr (m + 1) 0) 0"
  have "Day ?t = MakeDay yr m (days_in_month yr m)"
    using m by (simp add: Day_MakeDate msPerDay_def MakeDay_next_zero)
  then have "Day ?t = DayFromYear yr + DaysBeforeMonth (InLeapYear_of_year yr) m + days_in_month yr m - 1"
    using m by (simp add: MakeDay_in_year)
  then have "DateFromTime ?t = days_in_month yr m"
    using m days_in_month_pos [of yr m] by (intro civil_of_day(3) [where y = yr and m = m]) simp_all
  then have last: "getDate (new_Date_ymd (Some y) (num_add (Some m) (Some 1)) (Some 0))
      = Some (days_in_month yr m)"
    by (simp add: new_Date_ymd_def num_add_def yr [symmetric] TimeClip_representable [OF r2] getDate_def)
  show ?thesis
    unfolding calendarGrid_def first last Let_def
    by (simp add: blank_loop_eq day_loop_eq)
qed

text \<open>For an invalid Date the year and the month are NaN, and the grid is empty.\<close>

lemma calendarGrid_invalid: "calendarGrid None None att = []"
  by (simp add: calendarGrid_def new_Date_ymd_def getDay_def getDate_def
      blank_loop_NaN day_loop_NaN)

lemma eval_DayFromYear_2024: "DayFromYear 2024 = 19723"
  by (simp add: DayFromYear_def)

lemma eval_leap_2024: "InLeapYear_of_year 2024 = 1"
  by (simp add: InLeapYear_of_year_def DaysInYear_def)

section \<open>Month navigation\<close>

lemma changeMonth_currentDate:
  assumes "currentDate s = Some t" and "\<bar>t\<bar> \<le> maxTime"
  shows "currentDate (changeMonth delta s)
     = TimeClip (MakeDate (MakeDay (YearFromTime t) (MonthFromTime t + delta) 1) (TimeWithinDay t))"
  using assms
  by (simp add: changeMonth_def new_Date_copy_def TimeClip_def getMonth_def num_add_def
      setMonth_def Let_def)

lemma month_start_fields:
  assumes "t' = MakeDate (MakeDay y m 1) (TimeWithinDay t)"
  shows "YearFromTime t' = y + m div 12" and "MonthFromTime t' = m mod 12"
    and "DateFromTime t' = 1" and "TimeWithinDay t' = TimeWithinDay t"
proof -
  have d: "Day t' = MakeDay y m 1"
    unfolding assms by (rule Day_MakeDate) (rule TimeWithinDay_range)+
  show "YearFromTime t' = y + m div 12" "MonthFromTime t' = m mod 12" "DateFromTime t' = 1"
    by (rule MakeDay_first [OF d])+
  show "TimeWithinDay t' = TimeWithinDay t"
    unfolding assms by (rule TimeWithinDay_MakeDate) (rule TimeWithinDay_range)+
qed

lemma next_month_div_mod:
  assumes "0 \<le> m" "m < 12"
  shows "(y + (m + 1) div 12, (m + 1) mod 12) = next_month (y, m)"
proof (cases "m = 11")
  case True
  then show ?thesis by (simp add: next_month_def)
next
  case False
  then have "0 \<le> m + 1" "m + 1 < 12" using assms by linarith+
  then show ?thesis using False by (simp add: next_month_def)
qed

lemma MakeDay_back:
  assumes "0 \<le> m" "m < 12"
  shows "MakeDay (y + (m + 1) div 12) ((m + 1) mod 12 + - 1) 1 = MakeDay y m 1"
proof (cases "m = 11")
  case True
  then show ?thesis by (simp add: MakeDay_def)
next
  case False
  then have "0 \<le> m + 1" "m + 1 < 12" using assms by linarith+
  then show ?thesis using assms by (simp add: MakeDay_def)
qed


text \<open>
  C2, as amended. From every valid current date for which the first of its own month
  and the first of the following month, at the same time of day, are representable
  Dates (by \<open>ordinary_year_navigable\<close>, every date of the years -271820 to 275759),
  \<open>changeMonth 1\<close> sets the current date to day 1 of the following month, whatever the
  day of the month was, and \<open>changeMonth (- 1)\<close> after it shows the original month.
\<close>

theorem changeMonth_forward_back:
  assumes "currentDate s = Some t" and "\<bar>t\<bar> \<le> maxTime"
    and "\<bar>MakeDate (MakeDay (YearFromTime t) (MonthFromTime t + 1) 1) (TimeWithinDay t)\<bar> \<le> maxTime"
    and "\<bar>MakeDate (MakeDay (YearFromTime t) (MonthFromTime t) 1) (TimeWithinDay t)\<bar> \<le> maxTime"
  shows "viewed_month (changeMonth 1 s) = Some (next_month (YearFromTime t, MonthFromTime t))
    \<and> getDate (currentDate (changeMonth 1 s)) = Some 1
    \<and> viewed_month (changeMonth (- 1) (changeMonth 1 s)) = Some (YearFromTime t, MonthFromTime t)"
proof -
  let ?y = "YearFromTime t" and ?m = "MonthFromTime t"
  define t1 where "t1 = MakeDate (MakeDay ?y (?m + 1) 1) (TimeWithinDay t)"
  define t2 where "t2 = MakeDate (MakeDay ?y ?m 1) (TimeWithinDay t)"
  have m: "0 \<le> ?m" "?m < 12" by (rule MonthFromTime_range)+
  have c1: "currentDate (changeMonth 1 s) = Some t1"
    using changeMonth_currentDate [OF assms(1,2), of 1] assms(3)
    by (simp add: TimeClip_def t1_def)
  have f1: "YearFromTime t1 = ?y + (?m + 1) div 12" "MonthFromTime t1 = (?m + 1) mod 12"
    "DateFromTime t1 = 1" "TimeWithinDay t1 = TimeWithinDay t"
    by (rule month_start_fields [OF t1_def])+
  have v1: "viewed_month (changeMonth 1 s) = Some (next_month (?y, ?m))"
    using next_month_div_mod [OF m, of ?y] by (simp add: viewed_month_def c1 getFullYear_def getMonth_def f1)
  have b: "\<bar>t1\<bar> \<le> maxTime" using assms(3) by (simp add: t1_def)
  have "currentDate (changeMonth (- 1) (changeMonth 1 s))
      = TimeClip (MakeDate (MakeDay (YearFromTime t1) (MonthFromTime t1 + - 1) 1) (TimeWithinDay t1))"
    by (rule changeMonth_currentDate [OF c1 b])
  also have "\<dots> = TimeClip t2"
    by (simp only: f1 MakeDay_back [OF m] t2_def)
  also have "\<dots> = Some t2" using assms(4) by (simp add: TimeClip_def t2_def)
  finally have c2: "currentDate (changeMonth (- 1) (changeMonth 1 s)) = Some t2" .
  have f2: "YearFromTime t2 = ?y + ?m div 12" "MonthFromTime t2 = ?m mod 12"
    by (rule month_start_fields [OF t2_def])+
  have v2: "viewed_month (changeMonth (- 1) (changeMonth 1 s)) = Some (?y, ?m)"
    using m by (simp add: viewed_month_def c2 getFullYear_def getMonth_def f2)
  show ?thesis using v1 v2 by (simp add: c1 getDate_def f1)
qed

lemma eval_jan_31:
  "YearFromTime 1706689800000 = 2024" "MonthFromTime 1706689800000 = 0"
  "DateFromTime 1706689800000 = 31" "TimeWithinDay 1706689800000 = 30600000"
proof -
  have d: "Day 1706689800000 = DayFromYear 2024 + DaysBeforeMonth (InLeapYear_of_year 2024) 0 + 31 - 1"
    by (simp add: Day_def msPerDay_def eval_DayFromYear_2024 DaysBeforeMonth_def)
  have m: "(0::int) \<le> 0" "(0::int) < 12" "(1::int) \<le> 31" "31 \<le> days_in_month 2024 0"
    by (simp_all add: days_in_month_def)
  show "YearFromTime 1706689800000 = 2024" "MonthFromTime 1706689800000 = 0"
    "DateFromTime 1706689800000 = 31"
    by (rule civil_of_day [OF m d])+
  show "TimeWithinDay 1706689800000 = 30600000"
    by (simp add: TimeWithinDay_def msPerDay_def)
qed

theorem changeMonth_forward_back_witness:
  "currentDate jan_31_dashboard = Some 1706689800000 \<and> \<bar>1706689800000 :: int\<bar> \<le> maxTime
   \<and> \<bar>MakeDate (MakeDay (YearFromTime 1706689800000) (MonthFromTime 1706689800000 + 1) 1)
        (TimeWithinDay 1706689800000)\<bar> \<le> maxTime
   \<and> \<bar>MakeDate (MakeDay (YearFromTime 1706689800000) (MonthFromTime 1706689800000) 1)
        (TimeWithinDay 1706689800000)\<bar> \<le> maxTime
   \<and> getDate (currentDate jan_31_dashboard) = Some 31
   \<and> viewed_month jan_31_dashboard = Some (2024, 0)
   \<and> viewed_month (changeMonth 1 jan_31_dashboard) = Some (2024, 1)
   \<and> getDate (currentDate (changeMonth 1 jan_31_dashboard)) = Some 1
   \<and> viewed_month (changeMonth (- 1) (changeMonth 1 jan_31_dashboard)) = Some (2024, 0)"
proof -
  have c: "currentDate jan_31_dashboard = Some 1706689800000"
    by (simp add: jan_31_dashboard_def)
  have a: "\<bar>1706689800000 :: int\<bar> \<le> maxTime" by (simp add: maxTime_def)
  have r1: "\<bar>MakeDate (MakeDay (YearFromTime 1706689800000) (MonthFromTime 1706689800000 + 1) 1)
        (TimeWithinDay 1706689800000)\<bar> \<le> maxTime"
    by (simp add: eval_jan_31 MakeDay_def MakeDate_def eval_DayFromYear_2024 eval_leap_2024
        DaysBeforeMonth_def msPerDay_def maxTime_def)
  have r0: "\<bar>MakeDate (MakeDay (YearFromTime 1706689800000) (MonthFromTime 1706689800000) 1)
        (TimeWithinDay 1706689800000)\<bar> \<le> maxTime"
    by (simp add: eval_jan_31 MakeDay_def MakeDate_def eval_DayFromYear_2024 eval_leap_2024
        DaysBeforeMonth_def msPerDay_def maxTime_def)
  have v: "viewed_month jan_31_dashboard = Some (2024, 0)"
    "getDate (currentDate jan_31_dashboard) = Some 31"
    by (simp_all add: viewed_month_def c getFullYear_def getMonth_def getDate_def eval_jan_31)
  from changeMonth_forward_back [OF c a r1 r0] show ?thesis
    using c a r1 r0 v by (simp add: eval_jan_31 next_month_def)
qed

text \<open>
  C2 as stated fails at the end of the Date range. The last valid Date lies in September
  of the year 275760; the first of October is beyond 8.64e15 ms, so \<open>changeMonth 1\<close>
  leaves an invalid Date, whose year and month are NaN, and going back does not
  restore the month.
\<close>

lemma eval_last_date:
  "YearFromTime 8640000000000000 = 275760" "MonthFromTime 8640000000000000 = 8"
  "TimeWithinDay 8640000000000000 = 0"
proof -
  have D: "DayFromYear 275760 = 99999744" by (simp add: DayFromYear_def)
  have L: "InLeapYear_of_year 275760 = 1" by (simp add: InLeapYear_of_year_def DaysInYear_def)
  have d: "Day 8640000000000000 = DayFromYear 275760 + DaysBeforeMonth (InLeapYear_of_year 275760) 8 + 13 - 1"
    by (simp add: Day_def msPerDay_def D L DaysBeforeMonth_def)
  have m: "(0::int) \<le> 8" "(8::int) < 12" "(1::int) \<le> 13" "13 \<le> days_in_month 275760 8"
    by (simp_all add: days_in_month_def)
  show "YearFromTime 8640000000000000 = 275760" "MonthFromTime 8640000000000000 = 8"
    by (rule civil_of_day [OF m d])+
  show "TimeWithinDay 8640000000000000 = 0"
    by (simp add: TimeWithinDay_def msPerDay_def)
qed

theorem changeMonth_range_end_counterexample:
  "viewed_month last_date_dashboard = Some (275760, 8)
   \<and> currentDate (changeMonth 1 last_date_dashboard) = None
   \<and> viewed_month (changeMonth 1 last_date_dashboard) = None
   \<and> viewed_month (changeMonth (- 1) (changeMonth 1 last_date_dashboard)) = None"
proof -
  have c: "currentDate last_date_dashboard = Some 8640000000000000"
    by (simp add: last_date_dashboard_def)
  have a: "\<bar>8640000000000000 :: int\<bar> \<le> maxTime" by (simp add: maxTime_def)
  have v: "viewed_month last_date_dashboard = Some (275760, 8)"
    by (simp add: viewed_month_def c getFullYear_def getMonth_def eval_last_date)
  have D: "DayFromYear 275760 = 99999744" by (simp add: DayFromYear_def)
  have L: "InLeapYear_of_year 275760 = 1" by (simp add: InLeapYear_of_year_def DaysInYear_def)
  have n: "currentDate (changeMonth 1 last_date_dashboard) = None"
    unfolding changeMonth_currentDate [OF c a]
    by (simp add: eval_last_date MakeDay_def MakeDate_def D L DaysBeforeMonth_def
        msPerDay_def maxTime_def TimeClip_def)
  have n2: "currentDate (changeMonth (- 1) (changeMonth 1 last_date_dashboard)) = None"
    by (simp add: changeMonth_def [of "- 1"] n new_Date_copy_def setMonth_def)
  show ?thesis using v n n2 by (simp add: viewed_month_def getFullYear_def)
qed

section \<open>The edit commit\<close>

text \<open>
  C4. When the upsert fails, \<open>handleSaveAttendance\<close> returns the state it was given
  with only the modal closed and the selected day cleared: the attendance mapping is the
  one before the commit. The upsert is the only request.
\<close>

theorem save_failure_keeps_mapping:
  assumes "selectedDay s = Some dy" and "dy \<noteq> 0"
    and "upsert_attendance g (save_row rc s dy) = Some e"
  shows "fst (handleSaveAttendance (Some g) rc s) = s\<lparr>isModalOpen := False, selectedDay := None\<rparr>
    \<and> attendance (fst (handleSaveAttendance (Some g) rc s)) = attendance s
    \<and> \<not> isModalOpen (fst (handleSaveAttendance (Some g) rc s))
    \<and> selectedDay (fst (handleSaveAttendance (Some g) rc s)) = None
    \<and> snd (handleSaveAttendance (Some g) rc s) = [UpsertAttendance (save_row rc s dy)]"
  using assms by (simp add: handleSaveAttendance_def Let_def)

theorem save_failure_keeps_mapping_witness:
  "selectedDay example_dashboard = Some 6 \<and> (6::int) \<noteq> 0
   \<and> upsert_attendance failing_gateway
        (save_row \<lparr>status = present, comment = lit ''makeup class''\<rparr> example_dashboard 6)
      = Some (GatewayError (lit ''offline''))
   \<and> isModalOpen example_dashboard
   \<and> attendance (fst (handleSaveAttendance (Some failing_gateway)
        \<lparr>status = present, comment = lit ''makeup class''\<rparr> example_dashboard)) = example_attendance
   \<and> \<not> isModalOpen (fst (handleSaveAttendance (Some failing_gateway)
        \<lparr>status = present, comment = lit ''makeup class''\<rparr> example_dashboard))
   \<and> selectedDay (fst (handleSaveAttendance (Some failing_gateway)
        \<lparr>status = present, comment = lit ''makeup class''\<rparr> example_dashboard)) = None"
proof -
  have a: "selectedDay example_dashboard = Some 6" by (simp add: example_dashboard_def)
  have b: "(6::int) \<noteq> 0" by simp
  have c: "upsert_attendance failing_gateway
        (save_row \<lparr>status = present, comment = lit ''makeup class''\<rparr> example_dashboard 6)
      = Some (GatewayError (lit ''offline''))"
    by (simp add: failing_gateway_def)
  have d: "isModalOpen example_dashboard" "attendance example_dashboard = example_attendance"
    by (simp_all add: example_dashboard_def)
  from save_failure_keeps_mapping [OF a b c] show ?thesis using a c d by simp
qed


lemma dec_digit: "n < 10 \<Longrightarrow> dec n = [digit n]"
  by (subst dec.simps) simp

lemma dec_more: "10 \<le> n \<Longrightarrow> dec n = dec (n div 10) @ [digit (n mod 10)]"
  by (subst dec.simps) simp


lemma eval_march_2024:
  "YearFromTime 1710460800000 = 2024" "MonthFromTime 1710460800000 = 2"
  "DateFromTime 1710460800000 = 15"
proof -
  have d: "Day 1710460800000 = DayFromYear 2024 + DaysBeforeMonth (InLeapYear_of_year 2024) 2 + 15 - 1"
    by (simp add: Day_def msPerDay_def eval_DayFromYear_2024 eval_leap_2024 DaysBeforeMonth_def)
  have m: "(0::int) \<le> 2" "(2::int) < 12" "(1::int) \<le> 15" "15 \<le> days_in_month 2024 2"
    by (simp_all add: days_in_month_def)
  show "YearFromTime 1710460800000 = 2024" "MonthFromTime 1710460800000 = 2"
    "DateFromTime 1710460800000 = 15"
    by (rule civil_of_day [OF m d])+
qed



text \<open>
  C10. With no day selected (null, or the falsy 0) or with no client,
  \<open>handleSaveAttendance\<close> sends nothing and returns the state unchanged: the mapping,
  the open flag of the modal and the selected day are what they were.
\<close>

theorem save_without_day_is_noop:
  assumes "selectedDay s = None \<or> selectedDay s = Some 0 \<or> supabase = None"
  shows "handleSaveAttendance supabase rc s = (s, [])"
  using assms by (auto simp: handleSaveAttendance_def split: option.splits)

theorem save_without_day_is_noop_witness:
  "(selectedDay (example_dashboard\<lparr>selectedDay := None\<rparr>) = None
      \<or> selectedDay (example_dashboard\<lparr>selectedDay := None\<rparr>) = Some 0
      \<or> Some example_gateway = None)
   \<and> handleSaveAttendance (Some example_gateway) \<lparr>status = present, comment = []\<rparr>
        (example_dashboard\<lparr>selectedDay := None\<rparr>)
      = (example_dashboard\<lparr>selectedDay := None\<rparr>, [])
   \<and> isModalOpen (fst (handleSaveAttendance (Some example_gateway) \<lparr>status = present, comment = []\<rparr>
        (example_dashboard\<lparr>selectedDay := None\<rparr>)))
   \<and> handleSaveAttendance None \<lparr>status = present, comment = []\<rparr> example_dashboard
      = (example_dashboard, [])"
proof -
  let ?s = "example_dashboard\<lparr>selectedDay := None\<rparr>"
  have a: "selectedDay ?s = None \<or> selectedDay ?s = Some 0 \<or> Some example_gateway = None"
    by simp
  have b: "selectedDay example_dashboard = None \<or> selectedDay example_dashboard = Some 0
      \<or> (None :: SupabaseClient option) = None"
    by simp
  have o: "isModalOpen ?s" by (simp add: example_dashboard_def)
  from save_without_day_is_noop [OF a] save_without_day_is_noop [OF b] show ?thesis
    using a o by simp
qed

section \<open>Tutor login\<close>

text \<open>
  C8. \<open>handleTutorLogin\<close> sets the session to the tutor exactly when the entered code
  equals the secret literal. For any other code the session is left as it was (on the
  login screen: none) and the error message becomes the non-empty text
  \<^verbatim>\<open>Invalid secret code.\<close>, which the screen shows.
\<close>

theorem tutor_login_iff_secret:
  "(tutorCode ls = TUTOR_SECRET_CODE \<longrightarrow> handleTutorLogin (ls, u) = (ls, Some Tutor))
   \<and> (tutorCode ls \<noteq> TUTOR_SECRET_CODE \<longrightarrow>
        handleTutorLogin (ls, u) = (ls\<lparr>error_message := lit ''Invalid secret code.''\<rparr>, u))
   \<and> (snd (handleTutorLogin (ls, None)) = Some Tutor) = (tutorCode ls = TUTOR_SECRET_CODE)
   \<and> (snd (handleTutorLogin (ls, None)) = None) = (tutorCode ls \<noteq> TUTOR_SECRET_CODE)
   \<and> lit ''Invalid secret code.'' \<noteq> []"
  by (simp add: handleTutorLogin_def handleLogin_def lit_def)

theorem tutor_login_iff_secret_witness:
  "tutorCode \<lparr>tutorCode = lit ''Tutor2042!'', selectedStudent = [], error_message = []\<rparr>
     = TUTOR_SECRET_CODE
   \<and> handleTutorLogin (\<lparr>tutorCode = lit ''Tutor2042!'', selectedStudent = [], error_message = []\<rparr>, None)
     = (\<lparr>tutorCode = lit ''Tutor2042!'', selectedStudent = [], error_message = []\<rparr>, Some Tutor)
   \<and> tutorCode \<lparr>tutorCode = lit ''tutor2042!'', selectedStudent = [], error_message = []\<rparr>
     \<noteq> TUTOR_SECRET_CODE
   \<and> handleTutorLogin (\<lparr>tutorCode = lit ''tutor2042!'', selectedStudent = [], error_message = []\<rparr>, None)
     = (\<lparr>tutorCode = lit ''tutor2042!'', selectedStudent = [],
         error_message = lit ''Invalid secret code.''\<rparr>, None)"
proof -
  let ?good = "\<lparr>tutorCode = lit ''Tutor2042!'', selectedStudent = [], error_message = []\<rparr>"
  let ?bad = "\<lparr>tutorCode = lit ''tutor2042!'', selectedStudent = [], error_message = []\<rparr>"
  have a: "tutorCode ?good = TUTOR_SECRET_CODE" by (simp add: TUTOR_SECRET_CODE_def)
  have b: "tutorCode ?bad \<noteq> TUTOR_SECRET_CODE" by (simp add: TUTOR_SECRET_CODE_def lit_def)
  from tutor_login_iff_secret [of ?good None] tutor_login_iff_secret [of ?bad None]
  show ?thesis using a b by simp
qed

section \<open>Adding a student\<close>

lemma trim_empty_iff: "trim s = [] \<longleftrightarrow> (\<forall>c\<in>set s. is_whitespace c)"
proof
  assume e: "trim s = []"
  show "\<forall>c\<in>set s. is_whitespace c"
  proof (rule ccontr)
    assume "\<not> (\<forall>c\<in>set s. is_whitespace c)"
    then have n: "dropWhile is_whitespace s \<noteq> []" by (simp add: dropWhile_eq_Nil_conv)
    then have h: "\<not> is_whitespace (hd (dropWhile is_whitespace s))" by (rule hd_dropWhile)
    have "hd (dropWhile is_whitespace s) \<in> set (rev (dropWhile is_whitespace s))"
      using n by simp
    moreover have "\<forall>c\<in>set (rev (dropWhile is_whitespace s)). is_whitespace c"
      using e by (simp add: trim_def dropWhile_eq_Nil_conv)
    ultimately show False using h by blast
  qed
next
  assume "\<forall>c\<in>set s. is_whitespace c"
  then have d: "dropWhile is_whitespace s = []" by (simp add: dropWhile_eq_Nil_conv)
  show "trim s = []" unfolding trim_def d by simp
qed

text \<open>
  C9, as amended. A name that is empty or made of whitespace only is rejected locally:
  \<open>addStudent\<close> sends no request and returns its state unchanged. For a name whose
  trimmed form is not empty, the first request is the insert of a row that carries the
  trimmed name and nothing else; when the insert succeeds, the input is cleared and the
  roster is fetched again in full; when the insert fails, nothing else is sent and the
  state is unchanged.
\<close>

theorem addStudent_rejects_blank_else_inserts:
  "((\<forall>c\<in>set newName. is_whitespace c) \<longrightarrow>
        addStudent supabase (newName, r) = ((newName, r), []))
   \<and> (trim newName \<noteq> [] \<longrightarrow>
        (\<exists>rest. snd (addStudent (Some g) (newName, r)) = InsertStudent (trim newName) # rest)
        \<and> (insert_student g (trim newName) = None \<longrightarrow>
             addStudent (Some g) (newName, r)
               = (([], fst (fetchStudents (Some g) r)), [InsertStudent (trim newName), SelectStudents])
             \<and> isLoaded (snd (fst (addStudent (Some g) (newName, r))))
             \<and> (\<forall>data. select_students g = Inr data \<longrightarrow>
                   students (snd (fst (addStudent (Some g) (newName, r)))) = data))
        \<and> (\<forall>e. insert_student g (trim newName) = Some e \<longrightarrow>
             addStudent (Some g) (newName, r) = ((newName, r), [InsertStudent (trim newName)])))"
proof -
  have blank: "addStudent supabase (newName, r) = ((newName, r), [])"
    if "\<forall>c\<in>set newName. is_whitespace c"
    using that trim_empty_iff [of newName] by (simp add: addStudent_def Let_def)
  have first: "\<exists>rest. snd (addStudent (Some g) (newName, r)) = InsertStudent (trim newName) # rest"
    if "trim newName \<noteq> []"
    using that by (cases "insert_student g (trim newName)") (simp_all add: addStudent_def Let_def)
  have ok: "addStudent (Some g) (newName, r)
        = (([], fst (fetchStudents (Some g) r)), [InsertStudent (trim newName), SelectStudents])
      \<and> isLoaded (snd (fst (addStudent (Some g) (newName, r))))
      \<and> (\<forall>data. select_students g = Inr data \<longrightarrow>
            students (snd (fst (addStudent (Some g) (newName, r)))) = data)"
    if "trim newName \<noteq> []" "insert_student g (trim newName) = None"
    using that by (cases "select_students g") (simp_all add: addStudent_def Let_def fetchStudents_def)
  have bad: "addStudent (Some g) (newName, r) = ((newName, r), [InsertStudent (trim newName)])"
    if "trim newName \<noteq> []" "insert_student g (trim newName) = Some e" for e
    using that by (simp add: addStudent_def Let_def)
  show ?thesis using blank first ok bad by blast
qed

theorem addStudent_rejects_blank_else_inserts_witness:
  "list_all is_whitespace (lit ''  '')
   \<and> addStudent (Some example_gateway) (lit ''  '', \<lparr>students = [], isLoaded = True\<rparr>)
       = ((lit ''  '', \<lparr>students = [], isLoaded = True\<rparr>), [])
   \<and> trim (lit '' Asha '') = lit ''Asha''
   \<and> insert_student example_gateway (trim (lit '' Asha '')) = None
   \<and> select_students example_gateway = Inr example_roster
   \<and> addStudent (Some example_gateway) (lit '' Asha '', \<lparr>students = [], isLoaded = True\<rparr>)
       = (([], \<lparr>students = example_roster, isLoaded = True\<rparr>),
          [InsertStudent (lit ''Asha''), SelectStudents])
   \<and> insert_student failing_gateway (trim (lit '' Asha '')) = Some (GatewayError (lit ''offline''))
   \<and> addStudent (Some failing_gateway) (lit '' Asha '', \<lparr>students = [], isLoaded = True\<rparr>)
       = ((lit '' Asha '', \<lparr>students = [], isLoaded = True\<rparr>),
          [InsertStudent (trim (lit '' Asha ''))])"
proof -
  let ?r = "\<lparr>students = [], isLoaded = True\<rparr>"
  have w: "\<forall>c\<in>set (lit ''  ''). is_whitespace c" by (simp add: lit_def is_whitespace_def)
  have t: "trim (lit '' Asha '') = lit ''Asha''" by (simp add: trim_def lit_def is_whitespace_def)
  have n: "trim (lit '' Asha '') \<noteq> []" by (simp add: t) (simp add: lit_def)
  have i: "insert_student example_gateway (trim (lit '' Asha '')) = None"
    by (simp add: example_gateway_def)
  have s: "select_students example_gateway = Inr example_roster"
    by (simp add: example_gateway_def)
  have f: "fst (fetchStudents (Some example_gateway) ?r) = \<lparr>students = example_roster, isLoaded = True\<rparr>"
    by (simp add: fetchStudents_def s)
  note b = addStudent_rejects_blank_else_inserts
    [of "lit ''  ''" "Some example_gateway" ?r example_gateway]
  note o = addStudent_rejects_blank_else_inserts
    [of "lit '' Asha ''" "Some example_gateway" ?r example_gateway]
  have c1: "addStudent (Some example_gateway) (lit ''  '', ?r) = ((lit ''  '', ?r), [])"
    using b w by blast
  have "addStudent (Some example_gateway) (lit '' Asha '', ?r)
      = (([], fst (fetchStudents (Some example_gateway) ?r)),
         [InsertStudent (trim (lit '' Asha '')), SelectStudents])"
    using o n i by blast
  then have c2: "addStudent (Some example_gateway) (lit '' Asha '', ?r)
      = (([], \<lparr>students = example_roster, isLoaded = True\<rparr>),
         [InsertStudent (lit ''Asha''), SelectStudents])"
    by (simp add: f t)
  have l: "list_all is_whitespace (lit ''  '')" using w by (simp add: list_all_iff)
  have x: "insert_student failing_gateway (trim (lit '' Asha '')) = Some (GatewayError (lit ''offline''))"
    by (simp add: failing_gateway_def)
  note q = addStudent_rejects_blank_else_inserts
    [of "lit '' Asha ''" "Some failing_gateway" ?r failing_gateway]
  have c3: "addStudent (Some failing_gateway) (lit '' Asha '', ?r)
      = ((lit '' Asha '', ?r), [InsertStudent (trim (lit '' Asha ''))])"
    using q n x by blast
  show ?thesis by (intro conjI l c1 t i s c2 x c3)
qed

text \<open>
  C9 as stated fails when the insert fails: for the name \<^verbatim>\<open>" Asha "\<close>, whose trimmed
  form is not empty, and a gateway that fails, \<open>addStudent\<close> sends the insert and then
  neither fetches the roster nor changes its state.
\<close>

theorem addStudent_failed_insert_counterexample:
  "trim (lit '' Asha '') = lit ''Asha'' \<and> lit ''Asha'' \<noteq> []
   \<and> addStudent (Some failing_gateway) (lit '' Asha '', \<lparr>students = [], isLoaded = True\<rparr>)
       = ((lit '' Asha '', \<lparr>students = [], isLoaded = True\<rparr>), [InsertStudent (lit ''Asha'')])
   \<and> SelectStudents \<notin> set (snd (addStudent (Some failing_gateway)
        (lit '' Asha '', \<lparr>students = [], isLoaded = True\<rparr>)))"
proof -
  have t: "trim (lit '' Asha '') = lit ''Asha''" by (simp add: trim_def lit_def is_whitespace_def)
  have n: "lit ''Asha'' \<noteq> []" by (simp add: lit_def)
  have a: "addStudent (Some failing_gateway) (lit '' Asha '', \<lparr>students = [], isLoaded = True\<rparr>)
       = ((lit '' Asha '', \<lparr>students = [], isLoaded = True\<rparr>), [InsertStudent (lit ''Asha'')])"
    by (simp add: addStudent_def Let_def t n failing_gateway_def)
  show ?thesis using t n by (simp add: a)
qed

section \<open>The shape of the calendar grid\<close>

lemma digit_count_eval:
  "n < 10 \<Longrightarrow> digit_count n = 1"
  "10 \<le> n \<Longrightarrow> digit_count n = Suc (digit_count (n div 10))"
  by (subst digit_count.simps, simp)+

lemma eval_canonical_dates:
  "canonical_date 2024 2 1 = lit ''2024-03-01''"
  "canonical_date 2024 2 5 = lit ''2024-03-05''"
  "canonical_date 2024 2 6 = lit ''2024-03-06''"
  "canonical_date 2024 2 31 = lit ''2024-03-31''"
  "canonical_date 2024 3 1 = lit ''2024-04-01''"
  "canonical_date 2024 3 30 = lit ''2024-04-30''"
  "canonical_date 275760 8 30 = lit ''275760-09-30''"
  by (simp_all add: canonical_date_def year_numeral_def decimal_numeral_def digit_count_eval
      two_digits_def digit_char_def lit_def)

text \<open>
  C1, as amended. For every month \<open>m\<close> of every year \<open>y\<close> whose first and last day are
  representable Dates (by \<open>ordinary_year_representable\<close>, every year from -271820 to
  275759), the years 0 to 99 set aside, \<open>calendarGrid\<close> is exactly the grid of the claim:
  \<open>weekday_of_first y m\<close> blanks, then the day cells 1 to \<open>days_in_month y m\<close>, each with
  its day number and the record that the attendance mapping holds under the canonical
  date string of that day.
\<close>

theorem calendarGrid_shape:
  assumes "0 \<le> m" "m < 12"
    and "y < 0 \<or> 99 < y"
    and "representable_day (MakeDay y m 1)"
    and "representable_day (MakeDay y (m + 1) 0)"
  shows "calendarGrid (Some y) (Some m) att = month_grid y m att"
proof -
  have yr: "y = (if 0 \<le> y \<and> y \<le> 99 then 1900 + y else y)" using assms(3) by auto
  have b: "map (\<lambda>i. Blank (lit ''blank-'' @ ToString (Some i))) [0..weekday_of_first y m - 1]
      = map (\<lambda>i. Blank (lit ''blank-'' @ decimal_numeral (nat i))) [0..weekday_of_first y m - 1]"
    by (rule map_cong [OF refl]) (simp add: ToString_index)
  have c: "map (\<lambda>d. DayCell (dateStr (Some y) (Some m) (Some d)) d
                    (att (dateStr (Some y) (Some m) (Some d)))) [1..days_in_month y m]
      = map (\<lambda>d. DayCell (canonical_date y m d) d (att (canonical_date y m d)))
          [1..days_in_month y m]"
  proof (rule map_cong [OF refl])
    fix d
    assume "d \<in> set [1..days_in_month y m]"
    then have "0 \<le> d" "d \<le> 99" using days_in_month_le_31 [of y m] by simp_all
    then have "dateStr (Some y) (Some m) (Some d) = canonical_date y m d"
      by (rule dateStr_canonical [OF assms(1,2)])
    then show "DayCell (dateStr (Some y) (Some m) (Some d)) d (att (dateStr (Some y) (Some m) (Some d)))
        = DayCell (canonical_date y m d) d (att (canonical_date y m d))"
      by simp
  qed
  show ?thesis
    unfolding calendarGrid_computed [OF assms(1,2) yr assms(4,5)] month_grid_def b c
    by (rule refl)
qed

theorem calendarGrid_shape_witness:
  "(0::int) \<le> 2 \<and> (2::int) < 12 \<and> ((2024::int) < 0 \<or> 99 < (2024::int))
   \<and> representable_day (MakeDay 2024 2 1) \<and> representable_day (MakeDay 2024 (2 + 1) 0)
   \<and> calendarGrid (Some 2024) (Some 2) example_attendance = month_grid 2024 2 example_attendance
   \<and> weekday_of_first 2024 2 = 5 \<and> days_in_month 2024 2 = 31
   \<and> length (calendarGrid (Some 2024) (Some 2) example_attendance) = 36
   \<and> DayCell (lit ''2024-03-05'') 5 (Some \<lparr>status = absent, comment = lit ''sick''\<rparr>)
        \<in> set (calendarGrid (Some 2024) (Some 2) example_attendance)
   \<and> DayCell (lit ''2024-03-06'') 6 None
        \<in> set (calendarGrid (Some 2024) (Some 2) example_attendance)"
proof -
  have r1: "representable_day (MakeDay 2024 2 1)"
    by (simp add: representable_day_def MakeDay_def MakeDate_def eval_DayFromYear_2024
        eval_leap_2024 DaysBeforeMonth_def msPerDay_def maxTime_def)
  have r2: "representable_day (MakeDay 2024 (2 + 1) 0)"
    by (simp add: representable_day_def MakeDay_def MakeDate_def eval_DayFromYear_2024
        eval_leap_2024 DaysBeforeMonth_def msPerDay_def maxTime_def)
  have w: "weekday_of_first 2024 2 = 5"
    by (simp add: weekday_of_first_def eval_DayFromYear_2024 eval_leap_2024 DaysBeforeMonth_def)
  have d: "days_in_month 2024 2 = 31"
    by (simp add: days_in_month_def)
  have g: "calendarGrid (Some 2024) (Some 2) example_attendance = month_grid 2024 2 example_attendance"
    by (rule calendarGrid_shape [OF _ _ _ r1 r2]) simp_all
  have l: "length (calendarGrid (Some 2024) (Some 2) example_attendance) = 36"
    unfolding g by (simp add: month_grid_def w d)
  have "DayCell (canonical_date 2024 2 5) 5 (example_attendance (canonical_date 2024 2 5))
      \<in> set (month_grid 2024 2 example_attendance)"
    by (simp add: month_grid_def d)
  then have c5: "DayCell (lit ''2024-03-05'') 5 (Some \<lparr>status = absent, comment = lit ''sick''\<rparr>)
      \<in> set (calendarGrid (Some 2024) (Some 2) example_attendance)"
    unfolding g eval_canonical_dates by (simp add: example_attendance_def)
  have "DayCell (canonical_date 2024 2 6) 6 (example_attendance (canonical_date 2024 2 6))
      \<in> set (month_grid 2024 2 example_attendance)"
    by (simp add: month_grid_def d)
  then have c6: "DayCell (lit ''2024-03-06'') 6 None
      \<in> set (calendarGrid (Some 2024) (Some 2) example_attendance)"
    unfolding g eval_canonical_dates by (simp add: example_attendance_def lit_def)
  have h: "(0::int) \<le> 2" "(2::int) < 12" "(2024::int) < 0 \<or> 99 < (2024::int)" by simp_all
  show ?thesis by (intro conjI h r1 r2 g w d l c5 c6)
qed

text \<open>
  C1 as stated fails at the end of the range of Date. The last valid Date lies in
  September of the year 275760, a month of 30 days that begins on a Monday; the Date of
  its last day is not representable, so \<open>calendarGrid\<close> finds NaN days and builds one
  blank and no day cell, while the grid of the claim has one blank and 30 day cells.
\<close>

theorem calendarGrid_range_end_counterexample:
  "getFullYear (Some 8640000000000000) = Some 275760
   \<and> getMonth (Some 8640000000000000) = Some 8
   \<and> calendarGrid (Some 275760) (Some 8) Map.empty = [Blank (lit ''blank-0'')]
   \<and> weekday_of_first 275760 8 = 1 \<and> days_in_month 275760 8 = 30
   \<and> length (month_grid 275760 8 Map.empty) = 31
   \<and> calendarGrid (Some 275760) (Some 8) Map.empty \<noteq> month_grid 275760 8 Map.empty"
proof -
  have L: "InLeapYear_of_year 275760 = 1" by (simp add: InLeapYear_of_year_def DaysInYear_def)
  have f: "getDay (new_Date_ymd (Some 275760) (Some 8) (Some 1)) = Some 1"
    by (simp add: getDay_def new_Date_ymd_def MakeDay_def DayFromYear_ends L DaysBeforeMonth_def
        MakeDate_def msPerDay_def TimeClip_def maxTime_def WeekDay_def Day_def)
  have l: "getDate (new_Date_ymd (Some 275760) (num_add (Some 8) (Some 1)) (Some 0)) = None"
    by (simp add: getDate_def new_Date_ymd_def num_add_def MakeDay_def DayFromYear_ends L
        DaysBeforeMonth_def MakeDate_def msPerDay_def TimeClip_def maxTime_def)
  have z: "ToString (Some 0) = lit ''0''"
    by (simp add: ToString_def dec.simps [of 0] digit_def lit_def)
  have g: "calendarGrid (Some 275760) (Some 8) Map.empty = [Blank (lit ''blank-0'')]"
    unfolding calendarGrid_def f l Let_def
    by (simp add: blank_loop_eq day_loop_NaN z) (simp add: lit_def)
  have w: "weekday_of_first 275760 8 = 1"
    by (simp add: weekday_of_first_def DayFromYear_ends L DaysBeforeMonth_def)
  have d: "days_in_month 275760 8 = 30" by (simp add: days_in_month_def)
  have n: "length (month_grid 275760 8 Map.empty) = 31"
    by (simp add: month_grid_def w d)
  have "length (calendarGrid (Some 275760) (Some 8) Map.empty) = 1" by (simp add: g)
  then have ne: "calendarGrid (Some 275760) (Some 8) Map.empty \<noteq> month_grid 275760 8 Map.empty"
    using n by auto
  have y: "getFullYear (Some 8640000000000000) = Some 275760"
    "getMonth (Some 8640000000000000) = Some 8"
    by (simp_all add: getFullYear_def getMonth_def eval_last_date)
  show ?thesis by (intro conjI y g w d n ne)
qed

text \<open>
  The years 0 to 99. Lines 213 and 214 build their Dates with \<^verbatim>\<open>new Date(year, month, ...)\<close>,
  which reads such a year as 1900 + year, while the date keys of line 222, the header
  and the navigation keep the year as it is. So for these years the blanks and the
  number of day cells are those of the month 1900 years later: January of the year 50
  begins on a Saturday and the grid of the claim has 6 blanks before its 31 day cells,
  but \<open>calendarGrid\<close> builds no blank, as for January 1950; February of the year 0 has 29
  days and \<open>calendarGrid\<close> builds 28 day cells, as for February 1900. The amended claim
  leaves these years aside.
\<close>

lemma calendarGrid_two_digit_year:
  "length (calendarGrid (Some 50) (Some 0) Map.empty) = 31"
  "length (month_grid 50 0 Map.empty) = 37"
  "length (calendarGrid (Some 0) (Some 1) Map.empty) = 4 + 28"
  "length (month_grid 0 1 Map.empty) = 2 + 29"
proof -
  have y: "(1950::int) = (if 0 \<le> (50::int) \<and> (50::int) \<le> 99 then 1900 + 50 else 50)" by simp
  have D: "DayFromYear 1950 = - 7305" by (simp add: DayFromYear_def)
  have L: "InLeapYear_of_year 1950 = 0" by (simp add: InLeapYear_of_year_def DaysInYear_def)
  have r1: "representable_day (MakeDay 1950 0 1)"
    by (simp add: representable_day_def MakeDay_def MakeDate_def D L
        DaysBeforeMonth_def msPerDay_def maxTime_def)
  have r2: "representable_day (MakeDay 1950 (0 + 1) 0)"
    by (simp add: representable_day_def MakeDay_def MakeDate_def D L
        DaysBeforeMonth_def msPerDay_def maxTime_def)
  have z: "(0::int) \<le> 0" "(0::int) < 12" by simp_all
  have w: "weekday_of_first 1950 0 = 0"
    by (simp add: weekday_of_first_def D L DaysBeforeMonth_def)
  show "length (calendarGrid (Some 50) (Some 0) Map.empty) = 31"
    unfolding calendarGrid_computed [OF z y r1 r2]
    by (simp add: w days_in_month_def)
  have w': "weekday_of_first 50 0 = 6"
    by (simp add: weekday_of_first_def DayFromYear_def InLeapYear_of_year_def DaysInYear_def
        DaysBeforeMonth_def)
  show "length (month_grid 50 0 Map.empty) = 37"
    by (simp add: month_grid_def w' days_in_month_def)
  have y0: "(1900::int) = (if 0 \<le> (0::int) \<and> (0::int) \<le> 99 then 1900 + 0 else 0)" by simp
  have D0: "DayFromYear 1900 = - 25567" by (simp add: DayFromYear_def)
  have L0: "InLeapYear_of_year 1900 = 0" by (simp add: InLeapYear_of_year_def DaysInYear_def)
  have q1: "representable_day (MakeDay 1900 1 1)"
    by (simp add: representable_day_def MakeDay_def MakeDate_def D0 L0
        DaysBeforeMonth_def msPerDay_def maxTime_def)
  have q2: "representable_day (MakeDay 1900 (1 + 1) 0)"
    by (simp add: representable_day_def MakeDay_def MakeDate_def D0 L0
        DaysBeforeMonth_def msPerDay_def maxTime_def)
  have o: "(0::int) \<le> 1" "(1::int) < 12" by simp_all
  have v: "weekday_of_first 1900 1 = 4"
    by (simp add: weekday_of_first_def D0 L0 DaysBeforeMonth_def)
  show "length (calendarGrid (Some 0) (Some 1) Map.empty) = 4 + 28"
    unfolding calendarGrid_computed [OF o y0 q1 q2]
    by (simp add: v days_in_month_def L0)
  have v': "weekday_of_first 0 1 = 2"
    by (simp add: weekday_of_first_def DayFromYear_def InLeapYear_of_year_def DaysInYear_def
        DaysBeforeMonth_def)
  have L00: "InLeapYear_of_year 0 = 1" by (simp add: InLeapYear_of_year_def DaysInYear_def)
  show "length (month_grid 0 1 Map.empty) = 2 + 29"
    by (simp add: month_grid_def v' days_in_month_def L00)
qed

section \<open>The attendance fetch\<close>

lemma build_attendance_dom: "dom (build_attendance m rows) = dom m \<union> date ` set rows"
  by (induction rows arbitrary: m) auto

lemma build_attendance_other:
  "k \<notin> date ` set rows \<Longrightarrow> build_attendance m rows k = m k"
  by (induction rows arbitrary: m) auto

text \<open>With one row for each date, as the uniqueness constraint gives, every row is stored.\<close>

lemma build_attendance_distinct:
  "distinct (map date rows) \<Longrightarrow> r \<in> set rows \<Longrightarrow>
     build_attendance m rows (date r) = Some \<lparr>status = status r, comment = comment r\<rparr>"
proof (induction rows arbitrary: m)
  case Nil
  then show ?case by simp
next
  case (Cons a rows)
  show ?case
  proof (cases "r = a")
    case True
    then have "date r \<notin> date ` set rows" using Cons.prems(1) by simp
    then show ?thesis using True by (simp add: build_attendance_other)
  next
    case False
    then show ?thesis using Cons by simp
  qed
qed

lemma fetch_success:
  assumes "studentId \<noteq> []"
    and "select_attendance g studentId (firstDay d) (lastDayOfMonth d) = Inr data"
  shows "fetchAttendanceForMonth (Some g) studentId d between s
     = ((between (s\<lparr>isLoadingAttendance := True\<rparr>))
          \<lparr>attendance := build_attendance Map.empty data, isLoadingAttendance := False\<rparr>,
        [SelectAttendance studentId (firstDay d) (lastDayOfMonth d)])"
  using assms by (simp add: fetchAttendanceForMonth_def Let_def)

lemma fetch_failure:
  assumes "studentId \<noteq> []"
    and "select_attendance g studentId (firstDay d) (lastDayOfMonth d) = Inl e"
  shows "fetchAttendanceForMonth (Some g) studentId d between s
     = ((between (s\<lparr>isLoadingAttendance := True\<rparr>))\<lparr>isLoadingAttendance := False\<rparr>,
        [SelectAttendance studentId (firstDay d) (lastDayOfMonth d)])"
  using assms by (simp add: fetchAttendanceForMonth_def Let_def)

subsection \<open>The bounds of the month query\<close>

text \<open>
  A year from 1 to 99 and the year 1900 later have months of the same lengths; the year
  0 is a leap year and 1900 is not, so February 1900 is a day shorter than February of
  the year 0.
\<close>

lemma two_digit_year_leap:
  assumes "1 \<le> y" "y \<le> 99"
  shows "InLeapYear_of_year (1900 + y) = InLeapYear_of_year y"
proof -
  have a: "(1900 + y) mod 4 = y mod 4"
    using mod_mult_self1 [of y 475 4] by (simp add: add.commute)
  have b: "(1900 + y) mod 100 = y" "y mod 100 = y"
    using mod_mult_self1 [of y 19 100] assms by (simp_all add: add.commute)
  show ?thesis
    using assms by (simp add: InLeapYear_of_year_def DaysInYear_def a b)
qed

lemma two_digit_year_month:
  assumes "0 \<le> y" "y \<le> 99"
  shows "days_in_month (1900 + y) m \<le> days_in_month y m"
    and "\<not> (y = 0 \<and> m = 1) \<Longrightarrow> days_in_month (1900 + y) m = days_in_month y m"
proof -
  have z: "InLeapYear_of_year 1900 = 0" "InLeapYear_of_year 0 = 1"
    by (simp_all add: InLeapYear_of_year_def DaysInYear_def)
  show "days_in_month (1900 + y) m \<le> days_in_month y m"
  proof (cases "y = 0")
    case True
    then show ?thesis by (simp add: days_in_month_def z)
  next
    case False
    then have "1 \<le> y" using assms(1) by simp
    then show ?thesis by (simp add: days_in_month_def two_digit_year_leap [OF _ assms(2)])
  qed
  show "days_in_month (1900 + y) m = days_in_month y m" if "\<not> (y = 0 \<and> m = 1)"
  proof (cases "y = 0")
    case True
    then show ?thesis using that by (simp add: days_in_month_def)
  next
    case False
    then have "1 \<le> y" using assms(1) by simp
    then show ?thesis by (simp add: days_in_month_def two_digit_year_leap [OF _ assms(2)])
  qed
qed

text \<open>
  The lower bound is the canonical date string of the first day of the month of the
  date. The upper bound is the canonical date string of a day \<open>l\<close> of that month, the
  last one except in February of the year 0, when the Date of the last day of the month
  is representable; otherwise it ends in \<^verbatim>\<open>NaN\<close>.
\<close>

lemma firstDay_canonical:
  "firstDay (Some t) = canonical_date (YearFromTime t) (MonthFromTime t) 1"
proof -
  have m: "0 \<le> MonthFromTime t" "MonthFromTime t < 12" by (rule MonthFromTime_range)+
  have a: "padStart (ToString (Some (MonthFromTime t + 1))) 2 (lit ''0'') = two_digits (MonthFromTime t + 1)"
    using m by (intro pad_two_digits) simp_all
  have "firstDay (Some t)
      = ToString (Some (YearFromTime t)) @ lit ''-'' @ two_digits (MonthFromTime t + 1) @ lit ''-01''"
    unfolding firstDay_def getFullYear_def getMonth_def num_add_def option.case option.map a
    by (rule refl)
  moreover have "lit ''-01'' = lit ''-'' @ two_digits 1"
    by (simp add: two_digits_def digit_char_def lit_def)
  ultimately show ?thesis
    by (simp add: canonical_date_def ToString_year)
qed

lemma lastDayOfMonth_representable:
  assumes "y = YearFromTime t" and "m = MonthFromTime t"
    and "yr = (if 0 \<le> y \<and> y \<le> 99 then 1900 + y else y)"
    and "representable_day (MakeDay yr (m + 1) 0)"
  shows "lastDayOfMonth (Some t) = canonical_date y m (days_in_month yr m)"
proof -
  have m: "0 \<le> m" "m < 12" unfolding assms(2) by (rule MonthFromTime_range)+
  have e: "lastDayOfMonth (Some t)
      = dateStr (Some y) (Some m) (getDate (new_Date_ymd (Some y) (num_add (Some m) (Some 1)) (Some 0)))"
    by (simp add: lastDayOfMonth_def dateStr_def getFullYear_def getMonth_def assms(1,2) Let_def)
  have b: "0 \<le> days_in_month yr m" "days_in_month yr m \<le> 99"
    using days_in_month_pos [of yr m] days_in_month_le_31 [of yr m] by linarith+
  show ?thesis
    unfolding e getDate_last_day [OF m assms(3,4)] by (rule dateStr_canonical [OF m b])
qed

lemma lastDayOfMonth_unrepresentable:
  assumes "y = YearFromTime t" and "m = MonthFromTime t"
    and "yr = (if 0 \<le> y \<and> y \<le> 99 then 1900 + y else y)"
    and "\<not> representable_day (MakeDay yr (m + 1) 0)"
  shows "\<exists>xs. lastDayOfMonth (Some t) = xs @ lit ''NaN''"
proof -
  have e: "lastDayOfMonth (Some t)
      = dateStr (Some y) (Some m) (getDate (new_Date_ymd (Some y) (num_add (Some m) (Some 1)) (Some 0)))"
    by (simp add: lastDayOfMonth_def dateStr_def getFullYear_def getMonth_def assms(1,2) Let_def)
  have "new_Date_ymd (Some y) (num_add (Some m) (Some 1)) (Some 0) = None"
    using assms(4)
    by (simp add: new_Date_ymd_def num_add_def assms(3) [symmetric] TimeClip_def
        representable_day_def)
  then have "lastDayOfMonth (Some t) = dateStr (Some y) (Some m) None"
    unfolding e by (simp add: getDate_def)
  also have "\<dots> = (ToString (Some y) @ lit ''-''
      @ padStart (ToString (num_add (Some m) (Some 1))) 2 (lit ''0'') @ lit ''-'') @ lit ''NaN''"
    by (simp add: dateStr_def ToString_def padStart_def lit_def)
  finally show ?thesis by blast
qed

text \<open>In a month of a year outside 0..99 whose last day is a representable Date: the last day.\<close>

lemma lastDayOfMonth_canonical:
  assumes "y = YearFromTime t" and "m = MonthFromTime t"
    and "y < 0 \<or> 99 < y" and "representable_day (MakeDay y (m + 1) 0)"
  shows "lastDayOfMonth (Some t) = canonical_date y m (days_in_month y m)"
proof -
  have "y = (if 0 \<le> y \<and> y \<le> 99 then 1900 + y else y)" using assms(3) by auto
  then show ?thesis by (rule lastDayOfMonth_representable [OF assms(1,2) _ assms(4)])
qed

lemma lastDayOfMonth_cases:
  assumes "y = YearFromTime t" and "m = MonthFromTime t"
  shows "(\<exists>l. 1 \<le> l \<and> l \<le> days_in_month y m \<and> (\<not> (y = 0 \<and> m = 1) \<longrightarrow> l = days_in_month y m)
            \<and> lastDayOfMonth (Some t) = canonical_date y m l)
       \<or> (\<exists>xs. lastDayOfMonth (Some t) = xs @ lit ''NaN'')"
proof -
  define yr where "yr = (if 0 \<le> y \<and> y \<le> 99 then 1900 + y else y)"
  show ?thesis
  proof (cases "representable_day (MakeDay yr (m + 1) 0)")
    case True
    let ?l = "days_in_month yr m"
    have c: "?l \<le> days_in_month y m" "\<not> (y = 0 \<and> m = 1) \<longrightarrow> ?l = days_in_month y m"
      using two_digit_year_month [of y m] by (auto simp: yr_def)
    have "lastDayOfMonth (Some t) = canonical_date y m ?l"
      by (rule lastDayOfMonth_representable [OF assms yr_def True])
    then show ?thesis using days_in_month_pos [of yr m] c by blast
  next
    case False
    then show ?thesis using lastDayOfMonth_unrepresentable [OF assms yr_def] by blast
  qed
qed

subsection \<open>What the gateway answers\<close>

lemma select_rows:
  assumes "read_date lo = Some a" and "read_date hi = Some b"
  shows "select_filtered_by_range table s lo hi
     = Inr (map row_json
             (filter (\<lambda>r. row_student_id r = s \<and> date_le a (row_date r) \<and> date_le (row_date r) b) table))"
  using assms by (simp add: select_filtered_by_range_def)

lemma select_unread:
  assumes "read_date hi = None"
  shows "select_filtered_by_range table s lo hi \<noteq> Inr data"
  using assms by (simp add: select_filtered_by_range_def split: option.splits)


lemma date_le_day_range:
  "date_le (y, m, 1) c \<and> date_le c (y, m, l)
     \<longleftrightarrow> fst c = y \<and> fst (snd c) = m \<and> 1 \<le> snd (snd c) \<and> snd (snd c) \<le> l"
  by (auto simp: date_le_def)

lemma in_month_iff:
  "in_month y m c
     \<longleftrightarrow> fst c = y \<and> fst (snd c) = m \<and> 1 \<le> snd (snd c) \<and> snd (snd c) \<le> days_in_month y m"
  unfolding in_month_def by (rule date_le_day_range)

lemma in_month_date:
  assumes "in_month y m (row_date r)"
  shows "date (row_json r) \<in> set (month_dates y m)"
proof -
  have "date (row_json r) = canonical_date y m (snd (snd (row_date r)))"
    using assms by (simp add: row_json_def in_month_iff)
  moreover have "snd (snd (row_date r)) \<in> set [1..days_in_month y m]"
    using assms by (simp add: in_month_iff)
  ultimately show ?thesis by (simp add: month_dates_def)
qed

text \<open>
  When the month query is answered with rows by the select-filtered-by-range of a table,
  both bounds were read as dates: the upper bound is the canonical date string of a day
  \<open>l\<close> of the month, and the rows are those of the student from day 1 to day \<open>l\<close>.
\<close>

lemma month_query_rows:
  assumes "y = YearFromTime t" and "m = MonthFromTime t"
    and "select_filtered_by_range table sid (firstDay (Some t)) (lastDayOfMonth (Some t)) = Inr data"
  shows "\<exists>l. 1 \<le> l \<and> l \<le> days_in_month y m \<and> (\<not> (y = 0 \<and> m = 1) \<longrightarrow> l = days_in_month y m)
            \<and> lastDayOfMonth (Some t) = canonical_date y m l
            \<and> data = map row_json
                 (filter (\<lambda>r. row_student_id r = sid \<and> fst (row_date r) = y \<and> fst (snd (row_date r)) = m
                               \<and> 1 \<le> snd (snd (row_date r)) \<and> snd (snd (row_date r)) \<le> l) table)"
proof -
  have m: "0 \<le> m" "m < 12" unfolding assms(2) by (rule MonthFromTime_range)+
  from lastDayOfMonth_cases [OF assms(1,2)]
  show ?thesis
  proof
    assume "\<exists>l. 1 \<le> l \<and> l \<le> days_in_month y m \<and> (\<not> (y = 0 \<and> m = 1) \<longrightarrow> l = days_in_month y m)
        \<and> lastDayOfMonth (Some t) = canonical_date y m l"
    then obtain l where l: "1 \<le> l" "l \<le> days_in_month y m"
        "\<not> (y = 0 \<and> m = 1) \<longrightarrow> l = days_in_month y m"
        "lastDayOfMonth (Some t) = canonical_date y m l"
      by blast
    have lo: "read_date (firstDay (Some t)) = Some (y, m, 1)"
      unfolding firstDay_canonical assms(1,2) [symmetric]
      using days_in_month_pos [of y m] by (intro read_date_canonical m) simp_all
    have hi: "read_date (lastDayOfMonth (Some t)) = Some (y, m, l)"
      unfolding l(4) by (rule read_date_canonical [OF m l(1,2)])
    have "data = map row_json
        (filter (\<lambda>r. row_student_id r = sid \<and> date_le (y, m, 1) (row_date r)
                      \<and> date_le (row_date r) (y, m, l)) table)"
      using assms(3) unfolding select_rows [OF lo hi] by simp
    also have "(\<lambda>r. row_student_id r = sid \<and> date_le (y, m, 1) (row_date r) \<and> date_le (row_date r) (y, m, l))
        = (\<lambda>r. row_student_id r = sid \<and> fst (row_date r) = y \<and> fst (snd (row_date r)) = m
                  \<and> 1 \<le> snd (snd (row_date r)) \<and> snd (snd (row_date r)) \<le> l)"
      using date_le_day_range by (intro ext) blast
    finally show ?thesis using l by blast
  next
    assume "\<exists>xs. lastDayOfMonth (Some t) = xs @ lit ''NaN''"
    then obtain xs where "lastDayOfMonth (Some t) = xs @ lit ''NaN''" by blast
    then have "read_date (lastDayOfMonth (Some t)) = None" by (simp add: read_date_NaN)
    then show ?thesis using select_unread assms(3) by blast
  qed
qed

subsection \<open>The mapping after the fetch\<close>

text \<open>
  C3, as amended. Take a selected student and a viewed month, the year \<open>y\<close> and month
  \<open>m\<close> of a valid current date, February of the year 0 set aside. When the gateway
  answers the month query with rows, and these are what the select-filtered-by-range of
  its table answers to that query, then the query asked for the student's rows between
  the canonical date strings of the first and of the last calendar day of the month, and
  the fetch replaces the mapping by the one built from the rows alone (nothing of the
  old mapping is kept, whatever happened to the state while the query was under way):
  the new mapping has an entry for a date string exactly when the response has a row of
  that student with that date, a date of the month, which is exactly when the table has
  a row of that student with a date from the first to the last calendar day of the
  month; it has no entry for a date string outside the month; and with one row for each
  date, each row's status and comment are stored under its date. When the gateway
  answers with an error, the mapping is left as it was.
\<close>

theorem fetch_builds_mapping_from_response:
  assumes "studentId \<noteq> []"
    and "d = Some t" and "y = YearFromTime t" and "m = MonthFromTime t"
    and "\<not> (y = 0 \<and> m = 1)"
  shows "(select_attendance g studentId (firstDay d) (lastDayOfMonth d) = Inr data \<longrightarrow>
          select_filtered_by_range table studentId (firstDay d) (lastDayOfMonth d) = Inr data \<longrightarrow>
            snd (fetchAttendanceForMonth (Some g) studentId d between s)
                = [SelectAttendance studentId (canonical_date y m 1)
                     (canonical_date y m (days_in_month y m))]
            \<and> attendance (fst (fetchAttendanceForMonth (Some g) studentId d between s))
                = build_attendance Map.empty data
            \<and> (\<forall>k. (attendance (fst (fetchAttendanceForMonth (Some g) studentId d between s)) k \<noteq> None)
                  = (\<exists>r\<in>set data. student_id r = studentId \<and> date r = k
                       \<and> date r \<in> set (month_dates y m)))
            \<and> (\<forall>k. (attendance (fst (fetchAttendanceForMonth (Some g) studentId d between s)) k \<noteq> None)
                  = (\<exists>r\<in>set table. row_student_id r = studentId \<and> in_month y m (row_date r)
                       \<and> date (row_json r) = k))
            \<and> (\<forall>k. k \<notin> set (month_dates y m) \<longrightarrow>
                  attendance (fst (fetchAttendanceForMonth (Some g) studentId d between s)) k = None)
            \<and> (distinct (map date data) \<longrightarrow>
                  (\<forall>r\<in>set data.
                     attendance (fst (fetchAttendanceForMonth (Some g) studentId d between s)) (date r)
                       = Some \<lparr>status = status r, comment = comment r\<rparr>)))
    \<and> (select_attendance g studentId (firstDay d) (lastDayOfMonth d) = Inl e \<longrightarrow>
          attendance (fst (fetchAttendanceForMonth (Some g) studentId d between s))
            = attendance (between (s\<lparr>isLoadingAttendance := True\<rparr>)))"
proof -
  let ?s' = "fst (fetchAttendanceForMonth (Some g) studentId d between s)"
  have ok: "snd (fetchAttendanceForMonth (Some g) studentId d between s)
          = [SelectAttendance studentId (canonical_date y m 1) (canonical_date y m (days_in_month y m))]
      \<and> attendance ?s' = build_attendance Map.empty data
      \<and> (\<forall>k. (attendance ?s' k \<noteq> None)
            = (\<exists>r\<in>set data. student_id r = studentId \<and> date r = k \<and> date r \<in> set (month_dates y m)))
      \<and> (\<forall>k. (attendance ?s' k \<noteq> None)
            = (\<exists>r\<in>set table. row_student_id r = studentId \<and> in_month y m (row_date r)
                 \<and> date (row_json r) = k))
      \<and> (\<forall>k. k \<notin> set (month_dates y m) \<longrightarrow> attendance ?s' k = None)
      \<and> (distinct (map date data) \<longrightarrow>
            (\<forall>r\<in>set data. attendance ?s' (date r) = Some \<lparr>status = status r, comment = comment r\<rparr>))"
    if h: "select_attendance g studentId (firstDay d) (lastDayOfMonth d) = Inr data"
      "select_filtered_by_range table studentId (firstDay d) (lastDayOfMonth d) = Inr data"
  proof -
    from month_query_rows [OF assms(3,4) h(2) [unfolded assms(2)]] assms(5)
    have ld: "lastDayOfMonth d = canonical_date y m (days_in_month y m)"
      and data: "data = map row_json
          (filter (\<lambda>r. row_student_id r = studentId \<and> fst (row_date r) = y \<and> fst (snd (row_date r)) = m
                        \<and> 1 \<le> snd (snd (row_date r)) \<and> snd (snd (row_date r)) \<le> days_in_month y m) table)"
      unfolding assms(2) by auto
    have fd: "firstDay d = canonical_date y m 1"
      unfolding assms(2,3,4) by (rule firstDay_canonical)
    have req: "snd (fetchAttendanceForMonth (Some g) studentId d between s)
          = [SelectAttendance studentId (canonical_date y m 1) (canonical_date y m (days_in_month y m))]"
      by (simp add: fetch_success [OF assms(1) h(1)] fd ld)
    have a: "attendance ?s' = build_attendance Map.empty data"
      by (simp add: fetch_success [OF assms(1) h(1)])
    have k: "(attendance ?s' k \<noteq> None) = (k \<in> date ` set data)" for k
      using build_attendance_dom [of Map.empty data] by (auto simp: a dom_def)
    have mem: "r \<in> set data \<longleftrightarrow> (\<exists>x\<in>set table. row_student_id x = studentId
        \<and> in_month y m (row_date x) \<and> r = row_json x)" for r
      by (auto simp: data in_month_iff)
    have p: "student_id r = studentId \<and> date r \<in> set (month_dates y m)" if "r \<in> set data" for r
    proof -
      from that obtain x where x: "row_student_id x = studentId" "in_month y m (row_date x)"
          "r = row_json x"
        using mem by blast
      have "student_id r = studentId" using x(1,3) by (simp add: row_json_def)
      then show ?thesis using in_month_date [OF x(2)] x(3) by simp
    qed
    have 1: "(attendance ?s' k \<noteq> None)
        = (\<exists>r\<in>set data. student_id r = studentId \<and> date r = k \<and> date r \<in> set (month_dates y m))"
      for k
      unfolding k using p by auto
    have 2: "(attendance ?s' k \<noteq> None)
        = (\<exists>r\<in>set table. row_student_id r = studentId \<and> in_month y m (row_date r)
             \<and> date (row_json r) = k)" for k
      unfolding k using mem by auto
    have 3: "attendance ?s' k = None" if "k \<notin> set (month_dates y m)" for k
      using 1 [of k] that by auto
    have 4: "attendance ?s' (date r) = Some \<lparr>status = status r, comment = comment r\<rparr>"
      if "distinct (map date data)" "r \<in> set data" for r
      unfolding a by (rule build_attendance_distinct [OF that])
    show ?thesis using req a 1 2 3 4 by blast
  qed
  have err: "attendance ?s' = attendance (between (s\<lparr>isLoadingAttendance := True\<rparr>))"
    if "select_attendance g studentId (firstDay d) (lastDayOfMonth d) = Inl e"
    by (simp add: fetch_failure [OF assms(1) that])
  show ?thesis using ok err by blast
qed

lemma eval_read_dates:
  "read_date (lit ''2024-03-01'') = Some (2024, 2, 1)"
  "read_date (lit ''2024-03-31'') = Some (2024, 2, 31)"
  "read_date (lit ''2024-04-01'') = Some (2024, 3, 1)"
  "read_date (lit ''2024-04-30'') = Some (2024, 3, 30)"
proof -
  have "read_date (canonical_date 2024 2 1) = Some (2024, 2, 1)"
    "read_date (canonical_date 2024 2 31) = Some (2024, 2, 31)"
    "read_date (canonical_date 2024 3 1) = Some (2024, 3, 1)"
    "read_date (canonical_date 2024 3 30) = Some (2024, 3, 30)"
    by (rule read_date_canonical; simp add: days_in_month_def)+
  then show "read_date (lit ''2024-03-01'') = Some (2024, 2, 1)"
    "read_date (lit ''2024-03-31'') = Some (2024, 2, 31)"
    "read_date (lit ''2024-04-01'') = Some (2024, 3, 1)"
    "read_date (lit ''2024-04-30'') = Some (2024, 3, 30)"
    by (simp_all add: eval_canonical_dates)
qed

lemma eval_example_bounds:
  "firstDay march_2024 = lit ''2024-03-01''" "lastDayOfMonth march_2024 = lit ''2024-03-31''"
proof -
  show "firstDay march_2024 = lit ''2024-03-01''"
    unfolding march_2024_def firstDay_canonical eval_march_2024 by (rule eval_canonical_dates)
  have "representable_day (MakeDay 2024 (2 + 1) 0)"
    by (rule ordinary_year_representable) simp_all
  then have "lastDayOfMonth march_2024 = canonical_date 2024 2 (days_in_month 2024 2)"
    unfolding march_2024_def
    by (intro lastDayOfMonth_canonical) (simp_all add: eval_march_2024)
  then show "lastDayOfMonth march_2024 = lit ''2024-03-31''"
    by (simp add: days_in_month_def eval_canonical_dates)
qed

lemma eval_example_select:
  "select_filtered_by_range example_table (lit ''asha'') (lit ''2024-03-01'') (lit ''2024-03-31'')
     = Inr [\<lparr>status = absent, comment = lit ''sick'', student_id = lit ''asha'', date = lit ''2024-03-05''\<rparr>]"
proof -
  have "lit ''ravi'' \<noteq> lit ''asha''" by (simp add: lit_def)
  then show ?thesis
    unfolding select_rows [OF eval_read_dates(1,2)]
    by (simp add: example_table_def date_le_def row_json_def eval_canonical_dates)
qed

theorem fetch_builds_mapping_from_response_witness:
  "lit ''asha'' \<noteq> []
   \<and> march_2024 = Some 1710460800000
   \<and> 2024 = YearFromTime 1710460800000 \<and> 2 = MonthFromTime 1710460800000
   \<and> \<not> ((2024::int) = 0 \<and> (2::int) = 1)
   \<and> select_attendance example_gateway (lit ''asha'') (firstDay march_2024) (lastDayOfMonth march_2024)
       = Inr [\<lparr>status = absent, comment = lit ''sick'', student_id = lit ''asha'', date = lit ''2024-03-05''\<rparr>]
   \<and> select_filtered_by_range example_table (lit ''asha'') (firstDay march_2024) (lastDayOfMonth march_2024)
       = Inr [\<lparr>status = absent, comment = lit ''sick'', student_id = lit ''asha'', date = lit ''2024-03-05''\<rparr>]
   \<and> snd (fetchAttendanceForMonth (Some example_gateway) (lit ''asha'') march_2024 (\<lambda>u. u)
        (example_dashboard\<lparr>attendance := [lit ''2024-02-20'' \<mapsto> \<lparr>status = extra, comment = []\<rparr>]\<rparr>))
       = [SelectAttendance (lit ''asha'') (lit ''2024-03-01'') (lit ''2024-03-31'')]
   \<and> attendance (fst (fetchAttendanceForMonth (Some example_gateway) (lit ''asha'') march_2024 (\<lambda>u. u)
        (example_dashboard\<lparr>attendance := [lit ''2024-02-20'' \<mapsto> \<lparr>status = extra, comment = []\<rparr>]\<rparr>)))
       = [lit ''2024-03-05'' \<mapsto> \<lparr>status = absent, comment = lit ''sick''\<rparr>]
   \<and> select_attendance failing_gateway (lit ''asha'') (firstDay march_2024) (lastDayOfMonth march_2024)
       = Inl (GatewayError (lit ''offline''))
   \<and> attendance (fst (fetchAttendanceForMonth (Some failing_gateway) (lit ''asha'') march_2024 (\<lambda>u. u)
        example_dashboard)) = attendance example_dashboard"
proof -
  let ?row = "\<lparr>status = absent, comment = lit ''sick'', student_id = lit ''asha'', date = lit ''2024-03-05''\<rparr>"
  let ?s = "example_dashboard\<lparr>attendance := [lit ''2024-02-20'' \<mapsto> \<lparr>status = extra, comment = []\<rparr>]\<rparr>"
  let ?e = "GatewayError (lit ''offline'')"
  have n: "lit ''asha'' \<noteq> []" by (simp add: lit_def)
  have d: "march_2024 = Some 1710460800000" by (rule march_2024_def)
  have y: "2024 = YearFromTime 1710460800000" "2 = MonthFromTime 1710460800000"
    by (simp_all add: eval_march_2024)
  have o: "\<not> ((2024::int) = 0 \<and> (2::int) = 1)" by simp
  have f: "select_filtered_by_range example_table (lit ''asha'') (firstDay march_2024)
      (lastDayOfMonth march_2024) = Inr [?row]"
    unfolding eval_example_bounds by (rule eval_example_select)
  have r: "select_attendance example_gateway (lit ''asha'') (firstDay march_2024) (lastDayOfMonth march_2024)
       = Inr [?row]"
    using f by (simp add: example_gateway_def)
  have x: "select_attendance failing_gateway (lit ''asha'') (firstDay march_2024) (lastDayOfMonth march_2024)
       = Inl ?e"
    by (simp add: failing_gateway_def)
  note t = fetch_builds_mapping_from_response
    [OF n d y o, where g = example_gateway and data = "[?row]" and table = example_table
      and e = ?e and s = ?s and between = "\<lambda>u. u"]
  note u = fetch_builds_mapping_from_response
    [OF n d y o, where g = failing_gateway and data = "[]" and table = example_table
      and e = ?e and s = example_dashboard and between = "\<lambda>u. u"]
  have q: "snd (fetchAttendanceForMonth (Some example_gateway) (lit ''asha'') march_2024 (\<lambda>u. u) ?s)
      = [SelectAttendance (lit ''asha'') (canonical_date 2024 2 1)
           (canonical_date 2024 2 (days_in_month 2024 2))]"
    using t r f by blast
  have q2: "snd (fetchAttendanceForMonth (Some example_gateway) (lit ''asha'') march_2024 (\<lambda>u. u) ?s)
      = [SelectAttendance (lit ''asha'') (lit ''2024-03-01'') (lit ''2024-03-31'')]"
    unfolding q by (simp add: days_in_month_def eval_canonical_dates)
  have a: "attendance (fst (fetchAttendanceForMonth (Some example_gateway) (lit ''asha'') march_2024 (\<lambda>u. u) ?s))
      = build_attendance Map.empty [?row]"
    using t r f by blast
  have a2: "attendance (fst (fetchAttendanceForMonth (Some example_gateway) (lit ''asha'') march_2024 (\<lambda>u. u) ?s))
      = [lit ''2024-03-05'' \<mapsto> \<lparr>status = absent, comment = lit ''sick''\<rparr>]"
    by (simp add: a)
  have "attendance (fst (fetchAttendanceForMonth (Some failing_gateway) (lit ''asha'') march_2024 (\<lambda>u. u)
        example_dashboard)) = attendance (example_dashboard\<lparr>isLoadingAttendance := True\<rparr>)"
    using u x by blast
  then have k: "attendance (fst (fetchAttendanceForMonth (Some failing_gateway) (lit ''asha'') march_2024
        (\<lambda>u. u) example_dashboard)) = attendance example_dashboard"
    by simp
  show ?thesis by (intro conjI n d y o r f q2 a2 x k)
qed

text \<open>
  C3 as stated fails when the gateway answers with an error. The dashboard shows April
  2024 and still holds the mapping of March; the month query for April fails; after the
  fetch the mapping still has the entry of March 5, which is not a date of April, and
  the response has no row at all.
\<close>

lemma eval_april_2024:
  "YearFromTime 1713139200000 = 2024" "MonthFromTime 1713139200000 = 3"
proof -
  have d: "Day 1713139200000 = DayFromYear 2024 + DaysBeforeMonth (InLeapYear_of_year 2024) 3 + 15 - 1"
    by (simp add: Day_def msPerDay_def eval_DayFromYear_2024 eval_leap_2024 DaysBeforeMonth_def)
  have m: "(0::int) \<le> 3" "(3::int) < 12" "(1::int) \<le> 15" "15 \<le> days_in_month 2024 3"
    by (simp_all add: days_in_month_def)
  show "YearFromTime 1713139200000 = 2024" "MonthFromTime 1713139200000 = 3"
    by (rule civil_of_day [OF m d])+
qed

lemma april_dates_differ: "lit ''2024-03-05'' \<notin> set (month_dates 2024 3)"
  by (auto simp: month_dates_def canonical_date_def year_numeral_def decimal_numeral_def
      digit_count_eval two_digits_def digit_char_def lit_def)

theorem fetch_failure_keeps_old_mapping_counterexample:
  "lit ''asha'' \<noteq> []
   \<and> april_2024 = Some 1713139200000
   \<and> YearFromTime 1713139200000 = 2024 \<and> MonthFromTime 1713139200000 = 3
   \<and> select_attendance failing_gateway (lit ''asha'') (firstDay april_2024) (lastDayOfMonth april_2024)
       = Inl (GatewayError (lit ''offline''))
   \<and> attendance (fst (fetchAttendanceForMonth (Some failing_gateway) (lit ''asha'') april_2024 (\<lambda>u. u)
        (example_dashboard\<lparr>currentDate := april_2024\<rparr>))) (lit ''2024-03-05'')
       = Some \<lparr>status = absent, comment = lit ''sick''\<rparr>
   \<and> lit ''2024-03-05'' \<notin> set (month_dates 2024 3)"
proof -
  let ?s = "example_dashboard\<lparr>currentDate := april_2024\<rparr>"
  have n: "lit ''asha'' \<noteq> []" by (simp add: lit_def)
  have x: "select_attendance failing_gateway (lit ''asha'') (firstDay april_2024) (lastDayOfMonth april_2024)
     = Inl (GatewayError (lit ''offline''))"
    by (simp add: failing_gateway_def)
  have "fst (fetchAttendanceForMonth (Some failing_gateway) (lit ''asha'') april_2024 (\<lambda>u. u) ?s)
      = ?s\<lparr>isLoadingAttendance := False\<rparr>"
    by (simp add: fetch_failure [OF n x])
  then have a: "attendance (fst (fetchAttendanceForMonth (Some failing_gateway) (lit ''asha'') april_2024
        (\<lambda>u. u) ?s)) (lit ''2024-03-05'') = Some \<lparr>status = absent, comment = lit ''sick''\<rparr>"
    by (simp add: example_dashboard_def example_attendance_def)
  show ?thesis by (intro conjI n april_2024_def eval_april_2024 x a april_dates_differ)
qed

text \<open>
  At the end of the range of Date the query itself is not well formed. For the last
  valid Date, in September of the year 275760, the Date of the last day of the month is
  not representable: the upper bound is \<^verbatim>\<open>275760-09-NaN\<close>, and a gateway that reads
  its bounds as dates answers with an error.
\<close>

lemma month_query_at_range_end:
  "lastDayOfMonth (Some 8640000000000000) = lit ''275760-09-NaN''"
  "select_attendance example_gateway (lit ''asha'') (firstDay (Some 8640000000000000))
      (lastDayOfMonth (Some 8640000000000000))
     = Inl (GatewayError (lit ''invalid input syntax for type date''))"
proof -
  have L: "InLeapYear_of_year 275760 = 1" by (simp add: InLeapYear_of_year_def DaysInYear_def)
  have l: "getDate (new_Date_ymd (Some 275760) (num_add (Some 8) (Some 1)) (Some 0)) = None"
    by (simp add: getDate_def new_Date_ymd_def num_add_def MakeDay_def DayFromYear_ends L
        DaysBeforeMonth_def MakeDate_def msPerDay_def TimeClip_def maxTime_def)
  have y: "dec 275760 = lit ''275760''" "dec 9 = lit ''9''"
    by (simp_all add: dec_digit dec_more digit_def lit_def)
  show b: "lastDayOfMonth (Some 8640000000000000) = lit ''275760-09-NaN''"
    unfolding lastDayOfMonth_def getFullYear_def getMonth_def option.map eval_last_date Let_def l
    by (simp add: ToString_def num_add_def padStart_def y) (simp add: lit_def)
  have "read_date (lit ''275760-09-NaN'') = None"
    using read_date_NaN [of "lit ''275760-09-''"] by (simp add: lit_def)
  then show "select_attendance example_gateway (lit ''asha'') (firstDay (Some 8640000000000000))
      (lastDayOfMonth (Some 8640000000000000))
     = Inl (GatewayError (lit ''invalid input syntax for type date''))"
    unfolding b by (simp add: example_gateway_def select_filtered_by_range_def split: option.splits)
qed

section \<open>The invariant of the attendance mapping\<close>























section \<open>Rendering the calendar\<close>








end

